theory Spec2Isabelle
  imports Main "HOL-Library.Word"
begin

section \<open>Shared types\<close>

text \<open>
  The indexer's slots, epochs, validator indices and fork keys are Go \<open>uint64\<close> values
  (\<open>phase0.Slot\<close>, \<open>phase0.Epoch\<close>, \<open>phase0.ValidatorIndex\<close>, \<open>ForkKey\<close>); a
  \<open>phase0.Root\<close> is a 32-byte array, read here as one 256-bit word.
\<close>

type_synonym u64 = "64 word"
type_synonym Root = "256 word"

text \<open>
  Errors are values. \<open>Panic\<close> stands for a Go runtime panic (nil dereference, index out of
  range, integer division by zero); the other constructors name the error each function wraps
  and returns.
\<close>

datatype error =
    Panic
  | DbError
  | ErrAddMissedSlot
  | ErrInsertSlot
  | ErrInsertDeposits
  | ErrInsertVoluntaryExits
  | ErrInsertSlashings
  | ErrInsertSyncAssignments
  | ErrSaveEpoch
  | ErrUpdatePruneState
  | ErrPruneCache
  | ErrFinality
  | ErrRestoreEpochStats

section \<open>Chain-state reader\<close>

text \<open>The spec constants the two source files read through \<open>chainState.GetSpecs()\<close>.\<close>

record ChainSpec =
  SlotsPerEpoch :: u64
  AltairForkEpoch :: u64
  EpochsPerSyncCommitteePeriod :: u64

text \<open>
  Modelled from the spec: the chain-state reader (\<open>EpochStartSlot\<close>, \<open>EpochOfSlot\<close>,
  \<open>SlotToSlotIndex\<close>) is defined outside the files at hand. Section 4.A describes it as pure
  slot/epoch arithmetic over the spec constants, an epoch being \<open>SlotsPerEpoch\<close> consecutive
  slots. The arithmetic is \<open>uint64\<close> arithmetic. Callers below check \<open>SlotsPerEpoch \<noteq> 0\<close>
  before dividing, where Go would panic.
\<close>

definition EpochStartSlot :: "ChainSpec \<Rightarrow> u64 \<Rightarrow> u64" where
  "EpochStartSlot cs epoch = epoch * SlotsPerEpoch cs"

definition EpochOfSlot :: "ChainSpec \<Rightarrow> u64 \<Rightarrow> u64" where
  "EpochOfSlot cs slot = slot div SlotsPerEpoch cs"

definition SlotToSlotIndex :: "ChainSpec \<Rightarrow> u64 \<Rightarrow> u64" where
  "SlotToSlotIndex cs slot = slot mod SlotsPerEpoch cs"

section \<open>Controller: the indexer loop (indexer.go)\<close>

text \<open>
  The controller's epoch cursors, with what the loop does to the outside world recorded
  next to them: \<open>pruneRuns\<close> counts the calls of \<open>runCachePruning\<close>, \<open>pruneState\<close> is the
  persisted cursor \<open>indexer.prunestate\<close>, \<open>pruneStateWrites\<close> counts the attempts to
  persist it, and \<open>logged\<close> collects the errors the loop logs and drops.
\<close>

record Indexer =
  running :: bool
  lastFinalizedEpoch :: u64
  lastPrunedEpoch :: u64
  lastPruneRunEpoch :: u64
  pruneRuns :: nat
  pruneState :: u64
  pruneStateWrites :: nat
  logged :: "error list"

text \<open>
  \<open>runCachePruning\<close> lives in another file. The loop only calls it and logs its error;
  the model records that the pass ran, and logs \<open>ErrPruneCache\<close> when the parameter
  \<open>pruneFails\<close> says the pass reports an error.
\<close>

definition runCachePruning :: "bool \<Rightarrow> Indexer \<Rightarrow> Indexer" where
  "runCachePruning pruneFails ix =
     (let ix1 = ix\<lparr>pruneRuns := pruneRuns ix + 1\<rparr>
      in if pruneFails then ix1\<lparr>logged := logged ix1 @ [ErrPruneCache]\<rparr> else ix1)"

text \<open>
  \<open>forkCache.updatePruningState\<close> inside \<open>db.RunDBTransaction\<close>: the cursor is written unless
  the transaction fails (\<open>updateFails\<close>), in which case the error is logged.
\<close>

definition updatePruningState :: "bool \<Rightarrow> Indexer \<Rightarrow> Indexer" where
  "updatePruningState updateFails ix =
     (let ix1 = ix\<lparr>pruneStateWrites := pruneStateWrites ix + 1\<rparr>
      in if updateFails then ix1\<lparr>logged := logged ix1 @ [ErrUpdatePruneState]\<rparr>
         else ix1\<lparr>pruneState := lastPrunedEpoch ix1\<rparr>)"

text \<open>
  The wall-clock branch of \<open>runIndexerLoop\<close> (lines 341-354). \<open>slotProgress\<close> is
  \<open>uint8(100 / SlotsPerEpoch * uint64(slotIndex))\<close>: an integer division first, then the
  product, then the truncation to eight bits.
\<close>

definition slotProgress :: "ChainSpec \<Rightarrow> u64 \<Rightarrow> 8 word" where
  "slotProgress cs slotIndex = ucast (100 div SlotsPerEpoch cs * slotIndex)"

definition onWallclockSlot :: "ChainSpec \<Rightarrow> bool \<Rightarrow> u64 \<Rightarrow> Indexer \<Rightarrow> error + Indexer" where
  "onWallclockSlot cs pruneFails number ix =
     (if SlotsPerEpoch cs = 0 then Inl Panic
      else
        let epoch = EpochOfSlot cs number;
            slotIndex = SlotToSlotIndex cs number
        in if epoch > lastPruneRunEpoch ix \<and> slotProgress cs slotIndex \<ge> 50
           then Inr ((runCachePruning pruneFails ix)\<lparr>lastPruneRunEpoch := epoch\<rparr>)
           else Inr ix)"

text \<open>
  The finality branch of \<open>runIndexerLoop\<close> (lines 318-339). \<open>processFinalityEvent\<close> is
  defined in another file, so it is a parameter: any function from the event and the
  controller state to an optional error and the state it leaves behind.
  \<open>currentEpoch\<close> is \<open>chainState.CurrentEpoch()\<close>, read from the wall clock.
\<close>

record Finality =
  FinalizedEpoch :: u64
  FinalizedRoot :: Root

definition onFinalityEvent ::
  "(Finality \<Rightarrow> Indexer \<Rightarrow> error option \<times> Indexer) \<Rightarrow> bool \<Rightarrow> bool \<Rightarrow> u64 \<Rightarrow>
   Finality \<Rightarrow> Indexer \<Rightarrow> Indexer" where
  "onFinalityEvent processFinalityEvent updateFails pruneFails currentEpoch ev ix =
     (let (err, ix1) = processFinalityEvent ev ix;
          ix2 = (case err of None \<Rightarrow> ix1 | Some e \<Rightarrow> ix1\<lparr>logged := logged ix1 @ [e]\<rparr>);
          ix3 = (if lastFinalizedEpoch ix2 > lastPrunedEpoch ix2
                 then updatePruningState updateFails
                        (ix2\<lparr>lastPrunedEpoch := lastFinalizedEpoch ix2\<rparr>)
                 else ix2);
          ix4 = runCachePruning pruneFails ix3
      in ix4\<lparr>lastPruneRunEpoch := currentEpoch\<rparr>)"

text \<open>
  Modelled from the spec: \<open>processFinalityEvent\<close> is not among the files at hand. Section 4.I
  gives its steps: (1) record the new finalized epoch in \<open>lastFinalizedEpoch\<close>, (2) persist
  the newly finalized epochs in a transaction, which may fail. \<open>persistFails\<close> says whether
  step 2 fails.
\<close>

definition processFinalityEvent :: "bool \<Rightarrow> Finality \<Rightarrow> Indexer \<Rightarrow> error option \<times> Indexer" where
  "processFinalityEvent persistFails ev ix =
     (let ix1 = ix\<lparr>lastFinalizedEpoch := FinalizedEpoch ev\<rparr>
      in (if persistFails then Some ErrFinality else None, ix1))"

section \<open>Epoch statistics and restart recovery (indexer.go, StartIndexer)\<close>

text \<open>
  Modelled from the spec: the \<open>EpochStats\<close> object, its values and the epoch cache are
  declared outside the files at hand. Section 3 lists the attributes: the key
  \<open>(epoch, dependentRoot)\<close>, an optional \<open>EpochStatsValues\<close> with the balances, the first
  deposit index and the three duty arrays, the flag \<open>isInDb\<close> and a pruning flag.
\<close>

record EpochStatsValues =
  ActiveValidators :: u64
  EffectiveBalance :: u64
  ActiveBalance :: u64
  FirstDepositIndex :: u64
  ProposerDuties :: "u64 list"
  AttesterDuties :: "u64 list list"
  SyncCommitteeDuties :: "u64 list"

record EpochStats =
  Stats_epoch :: u64
  Stats_dependentRoot :: Root
  Stats_values :: "EpochStatsValues option"
  isInDb :: bool
  Stats_pruned :: bool

text \<open>
  Modelled from the spec: \<open>GetValues\<close> hands out the optional values (nil for a nil
  receiver), and \<open>pruneValues\<close> "discards the large duty arrays in memory" (section 4.C)
  and raises the pruning flag.
\<close>

definition GetValues :: "EpochStats option \<Rightarrow> EpochStatsValues option" where
  "GetValues es = (case es of None \<Rightarrow> None | Some s \<Rightarrow> Stats_values s)"

definition dropDuties :: "EpochStatsValues \<Rightarrow> EpochStatsValues" where
  "dropDuties v = v\<lparr>ProposerDuties := [], AttesterDuties := [], SyncCommitteeDuties := []\<rparr>"

definition pruneValues :: "EpochStats \<Rightarrow> EpochStats" where
  "pruneValues es = es\<lparr>Stats_values := map_option dropDuties (Stats_values es), Stats_pruned := True\<rparr>"

text \<open>A row of the recovery log, as \<open>db.StreamUnfinalizedDuties\<close> streams it.\<close>

record UnfinalizedDuty =
  Duty_Epoch :: u64
  Duty_DependentRoot :: Root
  Duty_DutiesSSZ :: "8 word list"

type_synonym epochCache = "(u64 \<times> Root) \<rightharpoonup> EpochStats"

text \<open>
  Modelled from the spec: \<open>createOrGetEpochStats\<close> is idempotent on
  \<open>(epoch, dependentRoot)\<close> (section 4.C): it returns the cached entry or caches a fresh one.
\<close>

definition createOrGetEpochStats :: "u64 \<Rightarrow> Root \<Rightarrow> epochCache \<Rightarrow> EpochStats \<times> epochCache" where
  "createOrGetEpochStats e r cache =
     (case cache (e, r) of
        Some es \<Rightarrow> (es, cache)
      | None \<Rightarrow>
          (let es = \<lparr>Stats_epoch = e, Stats_dependentRoot = r, Stats_values = None,
                     isInDb = False, Stats_pruned = False\<rparr>
           in (es, cache((e, r) \<mapsto> es))))"

text \<open>
  Modelled from the spec: \<open>restoreFromDb\<close> decodes the SSZ duties of a recovery-log row
  (section 6) and installs them as the entry's values. The codec is the parameter \<open>decode\<close>;
  \<open>None\<close> is a decoding error.
\<close>

definition restoreFromDb ::
  "(UnfinalizedDuty \<Rightarrow> EpochStatsValues option) \<Rightarrow> UnfinalizedDuty \<Rightarrow> EpochStats \<Rightarrow> error + EpochStats" where
  "restoreFromDb decode dbDuty es =
     (case decode dbDuty of
        None \<Rightarrow> Inl ErrRestoreEpochStats
      | Some v \<Rightarrow> Inr (es\<lparr>Stats_values := Some v\<rparr>))"

text \<open>
  What the restart has built: the controller, the epoch cache and the counter
  \<open>restoredEpochStats\<close>.
\<close>

record Restart =
  Restart_indexer :: Indexer
  Restart_cache :: epochCache
  restoredEpochStats :: nat

text \<open>
  The callback handed to \<open>db.StreamUnfinalizedDuties\<close> (lines 177-208). The source runs
  the body in up to ten goroutines; every body works on the entry of its own row, and the
  model runs them in stream order.
\<close>

definition restoreDuty ::
  "(UnfinalizedDuty \<Rightarrow> EpochStatsValues option) \<Rightarrow> u64 \<Rightarrow> UnfinalizedDuty \<Rightarrow> Restart \<Rightarrow> Restart" where
  "restoreDuty decode finalizedEpoch dbDuty st =
     (if Duty_Epoch dbDuty < finalizedEpoch then st
      else
        let (es, cache1) = createOrGetEpochStats (Duty_Epoch dbDuty) (Duty_DependentRoot dbDuty) (Restart_cache st);
            st1 = st\<lparr>Restart_cache := cache1\<rparr>
        in case restoreFromDb decode dbDuty es of
             Inl e \<Rightarrow> st1\<lparr>Restart_indexer := (Restart_indexer st1)\<lparr>logged := logged (Restart_indexer st1) @ [e]\<rparr>\<rparr>
           | Inr es1 \<Rightarrow>
               let es2 = es1\<lparr>isInDb := True\<rparr>;
                   es3 = (if Duty_Epoch dbDuty < lastPrunedEpoch (Restart_indexer st1)
                          then pruneValues es2 else es2)
               in st1\<lparr>Restart_cache := (Restart_cache st1)((Duty_Epoch dbDuty, Duty_DependentRoot dbDuty) \<mapsto> es3),
                       restoredEpochStats := restoredEpochStats st1 + 1\<rparr>)"

text \<open>
  \<open>StartIndexer\<close> up to the end of the epoch-stats restore (lines 134-214): the cursors are
  initialised from the finalized checkpoint and the persisted prune state, then every
  streamed row goes through the callback. The restore of forks, epoch aggregations and
  blocks, and the start of the clients, do not touch the epoch-stats values and are left out.
\<close>

definition StartIndexer ::
  "(UnfinalizedDuty \<Rightarrow> EpochStatsValues option) \<Rightarrow> bool \<Rightarrow> u64 \<Rightarrow> u64 \<Rightarrow> UnfinalizedDuty list \<Rightarrow>
   Restart \<Rightarrow> Restart" where
  "StartIndexer decode updateFails finalizedEpoch currentEpoch duties st =
     (if running (Restart_indexer st) then st
      else
        let ix1 = (Restart_indexer st)\<lparr>running := True, lastFinalizedEpoch := finalizedEpoch\<rparr>;
            ix2 = ix1\<lparr>lastPrunedEpoch := pruneState ix1\<rparr>;
            ix3 = (if lastPrunedEpoch ix2 < finalizedEpoch
                   then updatePruningState updateFails (ix2\<lparr>lastPrunedEpoch := finalizedEpoch\<rparr>)
                   else ix2);
            ix4 = ix3\<lparr>lastPruneRunEpoch := currentEpoch\<rparr>
        in fold (restoreDuty decode finalizedEpoch) duties
             (st\<lparr>Restart_indexer := ix4, restoredEpochStats := 0\<rparr>))"

text \<open>The cache key of a recovery-log row, and whether an entry cached under a key is pruned.\<close>

definition dutyKey :: "UnfinalizedDuty \<Rightarrow> u64 \<times> Root" where
  "dutyKey d = (Duty_Epoch d, Duty_DependentRoot d)"

definition priorPruned :: "epochCache \<Rightarrow> u64 \<times> Root \<Rightarrow> bool" where
  "priorPruned c k = (case c k of None \<Rightarrow> False | Some es \<Rightarrow> Stats_pruned es)"

section \<open>Database rows and the database collaborator\<close>

text \<open>
  The row types of \<open>dbtypes\<close>, with the fields the writer fills. Field names carry the row
  type as a prefix. \<open>SyncParticipation\<close> (a \<open>float32\<close>), the graffiti and the execution-layer
  columns are left out: no integer column depends on them. \<open>BlockCount\<close> is incremented once
  per slot with a block; its integer type is declared in \<open>dbtypes\<close>, and it is counted here
  as a natural number.
\<close>

datatype SlotStatus = Missing | Canonical | Orphaned

datatype SlashingReason = UnspecifiedSlashing | ProposerSlashing | AttesterSlashing

record SlotHeader =
  SlotHeader_Slot :: u64
  SlotHeader_Proposer :: u64
  SlotHeader_Status :: SlotStatus

record Slot =
  Slot_Slot :: u64
  Slot_Proposer :: u64
  Slot_Status :: SlotStatus
  Slot_ForkId :: u64
  Slot_Root :: Root
  Slot_ParentRoot :: Root
  Slot_StateRoot :: Root
  Slot_AttestationCount :: u64
  Slot_DepositCount :: u64
  Slot_ExitCount :: u64
  Slot_AttesterSlashingCount :: u64
  Slot_ProposerSlashingCount :: u64
  Slot_BLSChangeCount :: u64

record Epoch =
  Epoch_Epoch :: u64
  Epoch_ValidatorCount :: u64
  Epoch_ValidatorBalance :: u64
  Epoch_Eligible :: u64
  Epoch_VotedTarget :: u64
  Epoch_VotedHead :: u64
  Epoch_VotedTotal :: u64
  Epoch_BlockCount :: nat
  Epoch_AttestationCount :: u64
  Epoch_DepositCount :: u64
  Epoch_ExitCount :: u64
  Epoch_AttesterSlashingCount :: u64
  Epoch_ProposerSlashingCount :: u64
  Epoch_BLSChangeCount :: u64

record Deposit =
  Deposit_Index :: "u64 option"
  Deposit_SlotNumber :: u64
  Deposit_SlotIndex :: u64
  Deposit_SlotRoot :: Root
  Deposit_Orphaned :: bool
  Deposit_ForkId :: u64
  Deposit_PublicKey :: "8 word list"
  Deposit_WithdrawalCredentials :: "8 word list"
  Deposit_Amount :: u64

record VoluntaryExit =
  Exit_SlotNumber :: u64
  Exit_SlotIndex :: u64
  Exit_SlotRoot :: Root
  Exit_Orphaned :: bool
  Exit_ForkId :: u64
  Exit_ValidatorIndex :: u64

record Slashing =
  Slashing_SlotNumber :: u64
  Slashing_SlotIndex :: u64
  Slashing_SlotRoot :: Root
  Slashing_Orphaned :: bool
  Slashing_ForkId :: u64
  Slashing_ValidatorIndex :: u64
  Slashing_SlasherIndex :: u64
  Slashing_Reason :: SlashingReason

record SyncAssignment =
  Sync_Period :: u64
  Sync_Index :: "32 word"
  Sync_Validator :: u64

text \<open>
  The tables the writer inserts into, each as the list of rows inserted so far, in order.
  \<open>InsertMissingSlot\<close> rows are kept apart from \<open>InsertSlot\<close> rows. \<open>writerLog\<close> holds the
  errors the writer logs and drops.
\<close>

record Database =
  db_slots :: "Slot list"
  db_missing_slots :: "SlotHeader list"
  db_epochs :: "Epoch list"
  db_deposits :: "Deposit list"
  db_voluntary_exits :: "VoluntaryExit list"
  db_slashings :: "Slashing list"
  db_sync_assignments :: "SyncAssignment list"
  writerLog :: "error list"

text \<open>
  Modelled from the spec: package \<open>db\<close> is not among the files at hand. Section 6 lists its
  typed inserts. Each one appends its rows to its table or reports an error; which calls
  fail is a parameter (\<open>fail...\<close>), as is the answer of \<open>IsSyncCommitteeSynchronized\<close>.
\<close>

record DbEnv =
  failInsertSlot :: "Slot \<Rightarrow> bool"
  failInsertMissingSlot :: "SlotHeader \<Rightarrow> bool"
  failInsertEpoch :: "Epoch \<Rightarrow> bool"
  failInsertDeposits :: "Deposit list \<Rightarrow> bool"
  failInsertVoluntaryExits :: "VoluntaryExit list \<Rightarrow> bool"
  failInsertSlashings :: "Slashing list \<Rightarrow> bool"
  failInsertSyncAssignments :: "SyncAssignment list \<Rightarrow> bool"
  IsSyncCommitteeSynchronized :: "Database \<Rightarrow> u64 \<Rightarrow> bool"

definition InsertSlot :: "DbEnv \<Rightarrow> Slot \<Rightarrow> Database \<Rightarrow> error + Database" where
  "InsertSlot env row db =
     (if failInsertSlot env row then Inl DbError else Inr (db\<lparr>db_slots := db_slots db @ [row]\<rparr>))"

definition InsertMissingSlot :: "DbEnv \<Rightarrow> SlotHeader \<Rightarrow> Database \<Rightarrow> error + Database" where
  "InsertMissingSlot env row db =
     (if failInsertMissingSlot env row then Inl DbError
      else Inr (db\<lparr>db_missing_slots := db_missing_slots db @ [row]\<rparr>))"

definition InsertEpoch :: "DbEnv \<Rightarrow> Epoch \<Rightarrow> Database \<Rightarrow> error + Database" where
  "InsertEpoch env row db =
     (if failInsertEpoch env row then Inl DbError else Inr (db\<lparr>db_epochs := db_epochs db @ [row]\<rparr>))"

definition InsertDeposits :: "DbEnv \<Rightarrow> Deposit list \<Rightarrow> Database \<Rightarrow> error + Database" where
  "InsertDeposits env rows db =
     (if failInsertDeposits env rows then Inl DbError
      else Inr (db\<lparr>db_deposits := db_deposits db @ rows\<rparr>))"

definition InsertVoluntaryExits :: "DbEnv \<Rightarrow> VoluntaryExit list \<Rightarrow> Database \<Rightarrow> error + Database" where
  "InsertVoluntaryExits env rows db =
     (if failInsertVoluntaryExits env rows then Inl DbError
      else Inr (db\<lparr>db_voluntary_exits := db_voluntary_exits db @ rows\<rparr>))"

definition InsertSlashings :: "DbEnv \<Rightarrow> Slashing list \<Rightarrow> Database \<Rightarrow> error + Database" where
  "InsertSlashings env rows db =
     (if failInsertSlashings env rows then Inl DbError
      else Inr (db\<lparr>db_slashings := db_slashings db @ rows\<rparr>))"

definition InsertSyncAssignments :: "DbEnv \<Rightarrow> SyncAssignment list \<Rightarrow> Database \<Rightarrow> error + Database" where
  "InsertSyncAssignments env rows db =
     (if failInsertSyncAssignments env rows then Inl DbError
      else Inr (db\<lparr>db_sync_assignments := db_sync_assignments db @ rows\<rparr>))"

section \<open>Blocks\<close>

text \<open>
  A cached block, with the fields the writer reads. \<open>Block_block\<close> is what \<open>GetBlock()\<close>
  returns: the decoded body, or nil. Blocks handed to the writer carry their header.
  The accessors of the versioned body return a value and an error; \<open>None\<close> is the error
  case, in which Go hands back a nil slice.
\<close>

record Attestation =
  Attestation_Slot :: u64
  Attestation_Index :: u64

record DepositData =
  PublicKey :: "8 word list"
  WithdrawalCredentials :: "8 word list"
  Amount :: u64

record IndexedAttestation =
  AttestingIndices :: "u64 list option"

record phase0_AttesterSlashing =
  Attestation1 :: "IndexedAttestation option"
  Attestation2 :: "IndexedAttestation option"

record phase0_ProposerSlashing =
  SignedHeader1_ProposerIndex :: u64
  SignedHeader2_ProposerIndex :: u64

record BlockBody =
  Body_ProposerIndex :: "u64 option"
  Body_Attestations :: "Attestation list option"
  Body_Deposits :: "DepositData list option"
  Body_VoluntaryExits :: "u64 list option"
  Body_AttesterSlashings :: "phase0_AttesterSlashing list option"
  Body_ProposerSlashings :: "phase0_ProposerSlashing list option"
  Body_BLSToExecutionChanges :: "u64 list option"

record BeaconBlockHeader =
  Header_Slot :: u64
  Header_ProposerIndex :: u64
  Header_ParentRoot :: Root
  Header_StateRoot :: Root

record Block =
  Block_Root :: Root
  Block_Slot :: u64
  Block_forkId :: u64
  Block_header :: BeaconBlockHeader
  Block_block :: "BlockBody option"

text \<open>The slice an accessor yields when its error is ignored (\<open>xs, _ := ...\<close>).\<close>

definition orNil :: "'a list option \<Rightarrow> 'a list" where
  "orNil r = (case r of None \<Rightarrow> [] | Some xs \<Rightarrow> xs)"

text \<open>\<open>uint64(len(xs))\<close>.\<close>

definition len64 :: "'a list \<Rightarrow> u64" where
  "len64 xs = of_nat (length xs)"

section \<open>DB writer (\<open>dbWriter\<close>, package beacon)\<close>

text \<open>
  \<open>persistMissedSlots\<close> (lines 25-57). One turn of its loop, for the slot \<open>slot\<close> and the
  cursor \<open>blockIdx\<close> into \<open>blocks\<close>: a block at the cursor with this slot moves the cursor on;
  otherwise a \<open>Missing\<close> row is inserted. The proposer is \<open>math.MaxInt64\<close> unless the epoch
  stats values are there; the index \<open>int(slot-firstSlot)\<close> into \<open>ProposerDuties\<close> panics out
  of range.
\<close>

definition MaxInt64 :: u64 where
  "MaxInt64 = 9223372036854775807"

definition missedSlotProposer :: "EpochStatsValues option \<Rightarrow> u64 \<Rightarrow> u64 \<Rightarrow> error + u64" where
  "missedSlotProposer epochStatsValues firstSlot slot =
     (case epochStatsValues of
        None \<Rightarrow> Inr MaxInt64
      | Some v \<Rightarrow>
          (let i = sint (slot - firstSlot)
           in if 0 \<le> i \<and> nat i < length (ProposerDuties v)
              then Inr (ProposerDuties v ! nat i) else Inl Panic))"

definition blockAt :: "Block list \<Rightarrow> nat \<Rightarrow> u64 \<Rightarrow> bool" where
  "blockAt blocks blockIdx slot \<longleftrightarrow> blockIdx < length blocks \<and> Block_Slot (blocks ! blockIdx) = slot"

definition missedSlotStep ::
  "DbEnv \<Rightarrow> EpochStatsValues option \<Rightarrow> Block list \<Rightarrow> u64 \<Rightarrow> u64 \<Rightarrow> nat \<Rightarrow> Database \<Rightarrow>
   error + nat \<times> Database" where
  "missedSlotStep env epochStatsValues blocks firstSlot slot blockIdx db =
     (if blockAt blocks blockIdx slot then Inr (blockIdx + 1, db)
      else
        case missedSlotProposer epochStatsValues firstSlot slot of
          Inl e \<Rightarrow> Inl e
        | Inr proposer \<Rightarrow>
            (case InsertMissingSlot env
                    \<lparr>SlotHeader_Slot = slot, SlotHeader_Proposer = proposer,
                     SlotHeader_Status = Missing\<rparr> db of
               Inl e \<Rightarrow> Inl ErrAddMissedSlot
             | Inr db1 \<Rightarrow> Inr (blockIdx, db1)))"

function missedSlotsLoop ::
  "DbEnv \<Rightarrow> EpochStatsValues option \<Rightarrow> Block list \<Rightarrow> u64 \<Rightarrow> u64 \<Rightarrow> u64 \<Rightarrow> nat \<Rightarrow> Database \<Rightarrow>
   error option \<times> Database" where
  "missedSlotsLoop env epochStatsValues blocks firstSlot lastSlot slot blockIdx db =
     (if slot < lastSlot then
        (case missedSlotStep env epochStatsValues blocks firstSlot slot blockIdx db of
           Inl e \<Rightarrow> (Some e, db)
         | Inr (blockIdx1, db1) \<Rightarrow>
             missedSlotsLoop env epochStatsValues blocks firstSlot lastSlot (slot + 1) blockIdx1 db1)
      else (None, db))"
  by pat_completeness auto

termination missedSlotsLoop
proof (relation "measure (\<lambda>(env, vals, blocks, firstSlot, lastSlot, slot, blockIdx, db).
        unat lastSlot - unat slot)")
  show "wf (measure (\<lambda>(env :: DbEnv, vals :: EpochStatsValues option, blocks :: Block list,
        firstSlot :: u64, lastSlot :: u64, slot :: u64, blockIdx :: nat, db :: Database).
        unat lastSlot - unat slot))"
    by simp
next
  fix env :: DbEnv and epochStatsValues :: "EpochStatsValues option" and blocks :: "Block list"
    and firstSlot lastSlot slot :: u64 and blockIdx blockIdx1 :: nat and db db1 :: Database
    and r :: "nat \<times> Database"
  assume lt: "slot < lastSlot"
  then have below: "unat slot < unat lastSlot" by (simp add: word_less_nat_alt)
  moreover have "unat lastSlot < 2 ^ 64" using unsigned_less [of lastSlot] by simp
  ultimately have "unat slot + unat (1 :: u64) < 2 ^ LENGTH(64)" by simp
  then have "unat (slot + 1) = unat slot + unat (1 :: u64)" by (simp only: unat_add_lem)
  then have "unat lastSlot - unat (slot + 1) < unat lastSlot - unat slot" using below by simp
  then show "((env, epochStatsValues, blocks, firstSlot, lastSlot, slot + 1, blockIdx1, db1),
              env, epochStatsValues, blocks, firstSlot, lastSlot, slot, blockIdx, db)
        \<in> measure (\<lambda>(env, vals, blocks, firstSlot, lastSlot, slot, blockIdx, db).
              unat lastSlot - unat slot)"
    by simp
qed

definition persistMissedSlots ::
  "DbEnv \<Rightarrow> ChainSpec \<Rightarrow> u64 \<Rightarrow> Block list \<Rightarrow> EpochStats option \<Rightarrow> Database \<Rightarrow> error option \<times> Database" where
  "persistMissedSlots env cs epoch blocks epochStats db =
     (let epochStatsValues = GetValues epochStats;
          firstSlot = EpochStartSlot cs epoch;
          lastSlot = firstSlot + SlotsPerEpoch cs
      in missedSlotsLoop env epochStatsValues blocks firstSlot lastSlot firstSlot 0 db)"

text \<open>
  \<open>buildDbBlock\<close> (lines 183-263): nil without a body, else the \<open>Slot\<close> row of the block.
  The errors of the body accessors are ignored. \<open>epochStats\<close> only feeds the sync
  participation, which is not modelled.
\<close>

definition buildDbBlock :: "Block \<Rightarrow> EpochStats option \<Rightarrow> u64 option \<Rightarrow> Slot option" where
  "buildDbBlock block epochStats overrideForkId =
     (case Block_block block of
        None \<Rightarrow> None
      | Some blockBody \<Rightarrow>
          (let dbBlock =
                 \<lparr>Slot_Slot = Header_Slot (Block_header block),
                  Slot_Proposer = Header_ProposerIndex (Block_header block),
                  Slot_Status = Canonical,
                  Slot_ForkId = Block_forkId block,
                  Slot_Root = Block_Root block,
                  Slot_ParentRoot = Header_ParentRoot (Block_header block),
                  Slot_StateRoot = Header_StateRoot (Block_header block),
                  Slot_AttestationCount = len64 (orNil (Body_Attestations blockBody)),
                  Slot_DepositCount = len64 (orNil (Body_Deposits blockBody)),
                  Slot_ExitCount = len64 (orNil (Body_VoluntaryExits blockBody)),
                  Slot_AttesterSlashingCount = len64 (orNil (Body_AttesterSlashings blockBody)),
                  Slot_ProposerSlashingCount = len64 (orNil (Body_ProposerSlashings blockBody)),
                  Slot_BLSChangeCount = len64 (orNil (Body_BLSToExecutionChanges blockBody))\<rparr>
           in Some (case overrideForkId of
                      None \<Rightarrow> dbBlock
                    | Some forkId \<Rightarrow> dbBlock\<lparr>Slot_ForkId := forkId\<rparr>)))"

text \<open>
  \<open>buildDbDeposits\<close> (lines 380-416). \<open>depositIndex\<close> is a \<open>*uint64\<close>: \<open>None\<close> is the nil
  pointer, \<open>Some i\<close> the cell's content; the function returns the content it leaves behind.
  \<open>idx\<close> is the position in the block.
\<close>

fun depositRows ::
  "Block \<Rightarrow> bool \<Rightarrow> u64 option \<Rightarrow> nat \<Rightarrow> DepositData list \<Rightarrow> u64 option \<Rightarrow> Deposit list \<times> u64 option" where
  "depositRows block orphaned overrideForkId idx [] depositIndex = ([], depositIndex)"
| "depositRows block orphaned overrideForkId idx (deposit # rest) depositIndex =
     (let dbDeposit =
            \<lparr>Deposit_Index = depositIndex,
             Deposit_SlotNumber = Block_Slot block,
             Deposit_SlotIndex = of_nat idx,
             Deposit_SlotRoot = Block_Root block,
             Deposit_Orphaned = orphaned,
             Deposit_ForkId = (case overrideForkId of None \<Rightarrow> Block_forkId block | Some forkId \<Rightarrow> forkId),
             Deposit_PublicKey = PublicKey deposit,
             Deposit_WithdrawalCredentials = WithdrawalCredentials deposit,
             Deposit_Amount = Amount deposit\<rparr>;
          depositIndex1 = map_option (\<lambda>i. i + 1) depositIndex;
          (rows, depositIndex2) = depositRows block orphaned overrideForkId (idx + 1) rest depositIndex1
      in (dbDeposit # rows, depositIndex2))"

definition buildDbDeposits ::
  "Block \<Rightarrow> u64 option \<Rightarrow> bool \<Rightarrow> u64 option \<Rightarrow> Deposit list \<times> u64 option" where
  "buildDbDeposits block depositIndex orphaned overrideForkId =
     (case Block_block block of
        None \<Rightarrow> ([], depositIndex)
      | Some blockBody \<Rightarrow>
          (case Body_Deposits blockBody of
             None \<Rightarrow> ([], depositIndex)
           | Some deposits \<Rightarrow> depositRows block orphaned overrideForkId 0 deposits depositIndex))"

definition persistBlockDeposits ::
  "DbEnv \<Rightarrow> Block \<Rightarrow> u64 option \<Rightarrow> bool \<Rightarrow> u64 option \<Rightarrow> Database \<Rightarrow>
   error option \<times> u64 option \<times> Database" where
  "persistBlockDeposits env block depositIndex orphaned overrideForkId db =
     (let (built, depositIndex1) = buildDbDeposits block depositIndex orphaned overrideForkId;
          dbDeposits = (if orphaned then map (\<lambda>d. d\<lparr>Deposit_Orphaned := True\<rparr>) built else built)
      in if length dbDeposits > 0 then
           (case InsertDeposits env dbDeposits db of
              Inl e \<Rightarrow> (Some ErrInsertDeposits, depositIndex1, db)
            | Inr db1 \<Rightarrow> (None, depositIndex1, db1))
         else (None, depositIndex1, db))"

text \<open>\<open>buildDbVoluntaryExits\<close> and \<open>persistBlockVoluntaryExits\<close> (lines 418-460).\<close>

definition buildDbVoluntaryExits :: "Block \<Rightarrow> bool \<Rightarrow> u64 option \<Rightarrow> VoluntaryExit list" where
  "buildDbVoluntaryExits block orphaned overrideForkId =
     (case Block_block block of
        None \<Rightarrow> []
      | Some blockBody \<Rightarrow>
          (case Body_VoluntaryExits blockBody of
             None \<Rightarrow> []
           | Some voluntaryExits \<Rightarrow>
               map (\<lambda>(idx, validatorIndex).
                      \<lparr>Exit_SlotNumber = Block_Slot block,
                       Exit_SlotIndex = of_nat idx,
                       Exit_SlotRoot = Block_Root block,
                       Exit_Orphaned = orphaned,
                       Exit_ForkId = (case overrideForkId of None \<Rightarrow> Block_forkId block | Some forkId \<Rightarrow> forkId),
                       Exit_ValidatorIndex = validatorIndex\<rparr>)
                   (enumerate 0 voluntaryExits)))"

definition persistBlockVoluntaryExits ::
  "DbEnv \<Rightarrow> Block \<Rightarrow> bool \<Rightarrow> u64 option \<Rightarrow> Database \<Rightarrow> error option \<times> Database" where
  "persistBlockVoluntaryExits env block orphaned overrideForkId db =
     (let dbVoluntaryExits = buildDbVoluntaryExits block orphaned overrideForkId
      in if length dbVoluntaryExits > 0 then
           (case InsertVoluntaryExits env dbVoluntaryExits db of
              Inl e \<Rightarrow> (Some ErrInsertVoluntaryExits, db)
            | Inr db1 \<Rightarrow> (None, db1))
         else (None, db))"

text \<open>
  \<open>buildDbSlashings\<close> (lines 475-551). \<open>slashingIndex\<close> is a Go \<open>int\<close> that counts the
  slashings seen; it is not advanced for an attester slashing that is skipped by
  \<open>continue\<close>. \<open>intersect.Simple\<close> belongs to a third-party package and is the parameter
  \<open>intersectSimple\<close>; \<open>intersect_Simple\<close> further down is that function. The rows of attester slashings are built without \<open>ForkId\<close> (left at zero) and
  with \<open>Orphaned: false\<close>.
\<close>

fun proposerSlashingRows ::
  "Block \<Rightarrow> bool \<Rightarrow> u64 option \<Rightarrow> u64 \<Rightarrow> nat \<Rightarrow> phase0_ProposerSlashing list \<Rightarrow> Slashing list" where
  "proposerSlashingRows block orphaned overrideForkId proposerIndex slashingIndex [] = []"
| "proposerSlashingRows block orphaned overrideForkId proposerIndex slashingIndex (proposerSlashing # rest) =
     \<lparr>Slashing_SlotNumber = Block_Slot block,
      Slashing_SlotIndex = of_nat slashingIndex,
      Slashing_SlotRoot = Block_Root block,
      Slashing_Orphaned = orphaned,
      Slashing_ForkId = (case overrideForkId of None \<Rightarrow> Block_forkId block | Some forkId \<Rightarrow> forkId),
      Slashing_ValidatorIndex = SignedHeader1_ProposerIndex proposerSlashing,
      Slashing_SlasherIndex = proposerIndex,
      Slashing_Reason = ProposerSlashing\<rparr>
     # proposerSlashingRows block orphaned overrideForkId proposerIndex (slashingIndex + 1) rest"

definition attesterSlashingRow :: "Block \<Rightarrow> u64 \<Rightarrow> nat \<Rightarrow> u64 \<Rightarrow> Slashing" where
  "attesterSlashingRow block proposerIndex slashingIndex valIdx =
     \<lparr>Slashing_SlotNumber = Block_Slot block,
      Slashing_SlotIndex = of_nat slashingIndex,
      Slashing_SlotRoot = Block_Root block,
      Slashing_Orphaned = False,
      Slashing_ForkId = 0,
      Slashing_ValidatorIndex = valIdx,
      Slashing_SlasherIndex = proposerIndex,
      Slashing_Reason = AttesterSlashing\<rparr>"

text \<open>
  The two index lists of an attester slashing, or \<open>None\<close> where the loop body hits
  \<open>continue\<close>: an attestation is nil, or its \<open>AttestingIndices\<close> are nil.
\<close>

definition slashingIndices :: "phase0_AttesterSlashing \<Rightarrow> (u64 list \<times> u64 list) option" where
  "slashingIndices attesterSlashing =
     (case (Attestation1 attesterSlashing, Attestation2 attesterSlashing) of
        (Some att1, Some att2) \<Rightarrow>
          (case (AttestingIndices att1, AttestingIndices att2) of
             (Some att1AttestingIndices, Some att2AttestingIndices) \<Rightarrow>
               Some (att1AttestingIndices, att2AttestingIndices)
           | _ \<Rightarrow> None)
      | _ \<Rightarrow> None)"

fun attesterSlashingRows ::
  "(u64 list \<Rightarrow> u64 list \<Rightarrow> u64 list) \<Rightarrow> Block \<Rightarrow> u64 \<Rightarrow> nat \<Rightarrow> phase0_AttesterSlashing list \<Rightarrow>
   Slashing list" where
  "attesterSlashingRows intersectSimple block proposerIndex slashingIndex [] = []"
| "attesterSlashingRows intersectSimple block proposerIndex slashingIndex (attesterSlashing # rest) =
     (case slashingIndices attesterSlashing of
        None \<Rightarrow> attesterSlashingRows intersectSimple block proposerIndex slashingIndex rest
      | Some (att1AttestingIndices, att2AttestingIndices) \<Rightarrow>
          map (attesterSlashingRow block proposerIndex slashingIndex)
              (intersectSimple att1AttestingIndices att2AttestingIndices)
          @ attesterSlashingRows intersectSimple block proposerIndex (slashingIndex + 1) rest)"

definition buildDbSlashings ::
  "(u64 list \<Rightarrow> u64 list \<Rightarrow> u64 list) \<Rightarrow> Block \<Rightarrow> bool \<Rightarrow> u64 option \<Rightarrow> Slashing list" where
  "buildDbSlashings intersectSimple block orphaned overrideForkId =
     (case Block_block block of
        None \<Rightarrow> []
      | Some blockBody \<Rightarrow>
          (case Body_ProposerSlashings blockBody of
             None \<Rightarrow> []
           | Some proposerSlashings \<Rightarrow>
               (case Body_AttesterSlashings blockBody of
                  None \<Rightarrow> []
                | Some attesterSlashings \<Rightarrow>
                    (case Body_ProposerIndex blockBody of
                       None \<Rightarrow> []
                     | Some proposerIndex \<Rightarrow>
                         \<comment> \<open>the first loop leaves \<open>slashingIndex = len(proposerSlashings)\<close>\<close>
                         proposerSlashingRows block orphaned overrideForkId proposerIndex 0 proposerSlashings
                         @ attesterSlashingRows intersectSimple block proposerIndex (length proposerSlashings)
                             attesterSlashings))))"

definition persistBlockSlashings ::
  "DbEnv \<Rightarrow> (u64 list \<Rightarrow> u64 list \<Rightarrow> u64 list) \<Rightarrow> Block \<Rightarrow> bool \<Rightarrow> u64 option \<Rightarrow> Database \<Rightarrow>
   error option \<times> Database" where
  "persistBlockSlashings env intersectSimple block orphaned overrideForkId db =
     (let dbSlashings = buildDbSlashings intersectSimple block orphaned overrideForkId
      in if length dbSlashings > 0 then
           (case InsertSlashings env dbSlashings db of
              Inl e \<Rightarrow> (Some ErrInsertSlashings, db)
            | Inr db1 \<Rightarrow> (None, db1))
         else (None, db))"

text \<open>
  \<open>persistBlockChildObjects\<close> (lines 82-116). \<open>buildDbConsolidations\<close> and
  \<open>buildDbElRequests\<close> return no rows, so the last two steps insert nothing and cannot fail.
\<close>

definition persistBlockChildObjects ::
  "DbEnv \<Rightarrow> (u64 list \<Rightarrow> u64 list \<Rightarrow> u64 list) \<Rightarrow> Block \<Rightarrow> u64 option \<Rightarrow> bool \<Rightarrow> u64 option \<Rightarrow>
   Database \<Rightarrow> error option \<times> u64 option \<times> Database" where
  "persistBlockChildObjects env intersectSimple block depositIndex orphaned overrideForkId db =
     (case persistBlockDeposits env block depositIndex orphaned overrideForkId db of
        (Some e, depositIndex1, db1) \<Rightarrow> (Some e, depositIndex1, db1)
      | (None, depositIndex1, db1) \<Rightarrow>
          (case persistBlockVoluntaryExits env block orphaned overrideForkId db1 of
             (Some e, db2) \<Rightarrow> (Some e, depositIndex1, db2)
           | (None, db2) \<Rightarrow>
               (case persistBlockSlashings env intersectSimple block orphaned overrideForkId db2 of
                  (Some e, db3) \<Rightarrow> (Some e, depositIndex1, db3)
                | (None, db3) \<Rightarrow> (None, depositIndex1, db3))))"

text \<open>
  \<open>persistBlockData\<close> (lines 59-80). Without a body \<open>buildDbBlock\<close> returns nil, and the
  row is dereferenced right after (by \<open>dbBlock.Status = ...\<close>, or inside the insert): a
  panic. The flag \<open>isInFinalizedDb\<close> set on the cached block is not part of the state here.
\<close>

definition persistBlockData ::
  "DbEnv \<Rightarrow> (u64 list \<Rightarrow> u64 list \<Rightarrow> u64 list) \<Rightarrow> Block \<Rightarrow> EpochStats option \<Rightarrow> u64 option \<Rightarrow> bool \<Rightarrow>
   u64 option \<Rightarrow> Database \<Rightarrow> error option \<times> u64 option \<times> Database" where
  "persistBlockData env intersectSimple block epochStats depositIndex orphaned overrideForkId db =
     (case buildDbBlock block epochStats overrideForkId of
        None \<Rightarrow> (Some Panic, depositIndex, db)
      | Some built \<Rightarrow>
          (let dbBlock = (if orphaned then built\<lparr>Slot_Status := Orphaned\<rparr> else built)
           in case InsertSlot env dbBlock db of
                Inl e \<Rightarrow> (Some ErrInsertSlot, depositIndex, db)
              | Inr db1 \<Rightarrow>
                  persistBlockChildObjects env intersectSimple block depositIndex orphaned overrideForkId db1))"

text \<open>
  \<open>buildDbEpoch\<close> (lines 265-359). \<open>EpochVotes\<close> carries the vote totals of the current and
  the next epoch. \<open>blockFn\<close> is the callback; it gets the block and the deposit-index cell
  and works on a state of its own (the transaction, for \<open>persistEpochData\<close>).
\<close>

record EpochVoteAmounts =
  TargetVoteAmount :: u64
  HeadVoteAmount :: u64
  TotalVoteAmount :: u64

record EpochVotes =
  CurrentEpoch :: EpochVoteAmounts
  NextEpoch :: EpochVoteAmounts

definition aggregateBody :: "BlockBody \<Rightarrow> Epoch \<Rightarrow> Epoch" where
  "aggregateBody blockBody dbEpoch =
     dbEpoch\<lparr>Epoch_AttestationCount :=
               Epoch_AttestationCount dbEpoch + len64 (orNil (Body_Attestations blockBody)),
             Epoch_DepositCount :=
               Epoch_DepositCount dbEpoch + len64 (orNil (Body_Deposits blockBody)),
             Epoch_ExitCount :=
               Epoch_ExitCount dbEpoch + len64 (orNil (Body_VoluntaryExits blockBody)),
             Epoch_AttesterSlashingCount :=
               Epoch_AttesterSlashingCount dbEpoch + len64 (orNil (Body_AttesterSlashings blockBody)),
             Epoch_ProposerSlashingCount :=
               Epoch_ProposerSlashingCount dbEpoch + len64 (orNil (Body_ProposerSlashings blockBody)),
             Epoch_BLSChangeCount :=
               Epoch_BLSChangeCount dbEpoch + len64 (orNil (Body_BLSToExecutionChanges blockBody))\<rparr>"

text \<open>
  One turn of the aggregation loop (lines 298-352), for the slot \<open>slot\<close>: the new cursor,
  the content of the deposit-index cell, the epoch row and the callback's state.
\<close>

definition aggregateStep ::
  "(Block \<Rightarrow> u64 option \<Rightarrow> 'st \<Rightarrow> u64 option \<times> 'st) option \<Rightarrow> Block list \<Rightarrow> u64 \<Rightarrow> nat \<Rightarrow>
   u64 option \<Rightarrow> Epoch \<Rightarrow> 'st \<Rightarrow> nat \<times> u64 option \<times> Epoch \<times> 'st" where
  "aggregateStep blockFn blocks slot blockIdx depositIndex dbEpoch st =
     (if blockAt blocks blockIdx slot then
        (let block = blocks ! blockIdx;
             dbEpoch1 = dbEpoch\<lparr>Epoch_BlockCount := Epoch_BlockCount dbEpoch + 1\<rparr>
         in case Block_block block of
              None \<Rightarrow> (blockIdx + 1, depositIndex, dbEpoch1, st)
            | Some blockBody \<Rightarrow>
                (let (depositIndex1, st1) =
                       (case blockFn of
                          None \<Rightarrow> (depositIndex, st)
                        | Some f \<Rightarrow> f block depositIndex st)
                 in (blockIdx + 1, depositIndex1, aggregateBody blockBody dbEpoch1, st1)))
      else (blockIdx, depositIndex, dbEpoch, st))"

text \<open>
  The loop \<open>for slot := firstSlot; slot <= lastSlot; slot++\<close>. With \<open>lastSlot\<close> at the
  largest \<open>uint64\<close> the counter wraps and the loop never ends: the result is \<open>None\<close> then.
\<close>

partial_function (option) aggregateLoop ::
  "(Block \<Rightarrow> u64 option \<Rightarrow> 'st \<Rightarrow> u64 option \<times> 'st) option \<Rightarrow> Block list \<Rightarrow> u64 \<Rightarrow> u64 \<Rightarrow> nat \<Rightarrow>
   u64 option \<Rightarrow> Epoch \<Rightarrow> 'st \<Rightarrow> (Epoch \<times> 'st) option" where
  "aggregateLoop blockFn blocks lastSlot slot blockIdx depositIndex dbEpoch st =
     (if slot \<le> lastSlot then
        (case aggregateStep blockFn blocks slot blockIdx depositIndex dbEpoch st of
           (blockIdx1, depositIndex1, dbEpoch1, st1) \<Rightarrow>
             aggregateLoop blockFn blocks lastSlot (slot + 1) blockIdx1 depositIndex1 dbEpoch1 st1)
      else Some (dbEpoch, st))"

definition initDbEpoch :: "u64 \<Rightarrow> EpochVotes option \<Rightarrow> EpochStatsValues option \<Rightarrow> Epoch" where
  "initDbEpoch epoch epochVotes epochStatsValues =
     (let dbEpoch =
            \<lparr>Epoch_Epoch = epoch, Epoch_ValidatorCount = 0, Epoch_ValidatorBalance = 0,
             Epoch_Eligible = 0, Epoch_VotedTarget = 0, Epoch_VotedHead = 0, Epoch_VotedTotal = 0,
             Epoch_BlockCount = 0, Epoch_AttestationCount = 0, Epoch_DepositCount = 0,
             Epoch_ExitCount = 0, Epoch_AttesterSlashingCount = 0,
             Epoch_ProposerSlashingCount = 0, Epoch_BLSChangeCount = 0\<rparr>;
          dbEpoch1 =
            (case epochVotes of
               None \<Rightarrow> dbEpoch
             | Some votes \<Rightarrow>
                 dbEpoch\<lparr>Epoch_VotedTarget :=
                           TargetVoteAmount (CurrentEpoch votes) + TargetVoteAmount (NextEpoch votes),
                         Epoch_VotedHead :=
                           HeadVoteAmount (CurrentEpoch votes) + HeadVoteAmount (NextEpoch votes),
                         Epoch_VotedTotal :=
                           TotalVoteAmount (CurrentEpoch votes) + TotalVoteAmount (NextEpoch votes)\<rparr>)
      in case epochStatsValues of
           None \<Rightarrow> dbEpoch1
         | Some v \<Rightarrow>
             dbEpoch1\<lparr>Epoch_ValidatorCount := ActiveValidators v,
                      Epoch_ValidatorBalance := ActiveBalance v,
                      Epoch_Eligible := EffectiveBalance v\<rparr>)"

definition buildDbEpoch ::
  "ChainSpec \<Rightarrow> u64 \<Rightarrow> Block list \<Rightarrow> EpochStats option \<Rightarrow> EpochVotes option \<Rightarrow>
   (Block \<Rightarrow> u64 option \<Rightarrow> 'st \<Rightarrow> u64 option \<times> 'st) option \<Rightarrow> 'st \<Rightarrow> (Epoch \<times> 'st) option" where
  "buildDbEpoch cs epoch blocks epochStats epochVotes blockFn st =
     (let epochStatsValues = GetValues epochStats;
          firstSlot = EpochStartSlot cs epoch;
          lastSlot = firstSlot + SlotsPerEpoch cs - 1;
          depositIndex = map_option FirstDepositIndex epochStatsValues;
          dbEpoch = initDbEpoch epoch epochVotes epochStatsValues
      in aggregateLoop blockFn blocks lastSlot firstSlot 0 depositIndex dbEpoch st)"

text \<open>
  \<open>persistEpochData\<close> (lines 118-146), inside its transaction (with a nil \<open>tx\<close> the source
  opens one and calls itself). The callback persists each canonical block under fork 0 and
  logs an error instead of returning it. The result is the error, if any, with the rows
  written so far; \<open>None\<close> when the aggregation loop does not return.
\<close>

definition persistCanonicalBlock ::
  "DbEnv \<Rightarrow> (u64 list \<Rightarrow> u64 list \<Rightarrow> u64 list) \<Rightarrow> EpochStats option \<Rightarrow> Block \<Rightarrow> u64 option \<Rightarrow> Database \<Rightarrow>
   u64 option \<times> Database" where
  "persistCanonicalBlock env intersectSimple epochStats block depositIndex db =
     (case persistBlockData env intersectSimple block epochStats depositIndex False (Some 0) db of
        (None, depositIndex1, db1) \<Rightarrow> (depositIndex1, db1)
      | (Some e, depositIndex1, db1) \<Rightarrow> (depositIndex1, db1\<lparr>writerLog := writerLog db1 @ [e]\<rparr>))"

definition persistEpochData ::
  "DbEnv \<Rightarrow> (u64 list \<Rightarrow> u64 list \<Rightarrow> u64 list) \<Rightarrow> ChainSpec \<Rightarrow> u64 \<Rightarrow> Block list \<Rightarrow> EpochStats option \<Rightarrow>
   EpochVotes option \<Rightarrow> Database \<Rightarrow> (error option \<times> Database) option" where
  "persistEpochData env intersectSimple cs epoch blocks epochStats epochVotes db =
     (case buildDbEpoch cs epoch blocks epochStats epochVotes
             (Some (persistCanonicalBlock env intersectSimple epochStats)) db of
        None \<Rightarrow> None
      | Some (dbEpoch, db1) \<Rightarrow>
          (case persistMissedSlots env cs epoch blocks epochStats db1 of
             (Some e, db2) \<Rightarrow> Some (Some e, db2)
           | (None, db2) \<Rightarrow>
               (case InsertEpoch env dbEpoch db2 of
                  Inl e \<Rightarrow> Some (Some ErrSaveEpoch, db2)
                | Inr db3 \<Rightarrow> Some (None, db3))))"

text \<open>
  \<open>persistSyncAssignments\<close> (lines 148-181). The division by
  \<open>EpochsPerSyncCommitteePeriod\<close> panics when that is zero. \<open>buildSyncAssignments\<close> is
  the loop of lines 172-179, with \<open>Index\<close> being \<open>uint32(idx)\<close>.
\<close>

definition buildSyncAssignments :: "u64 \<Rightarrow> u64 list \<Rightarrow> SyncAssignment list" where
  "buildSyncAssignments period duties =
     map (\<lambda>(idx, val). \<lparr>Sync_Period = period, Sync_Index = of_nat idx, Sync_Validator = val\<rparr>)
         (enumerate 0 duties)"

definition persistSyncAssignments ::
  "DbEnv \<Rightarrow> ChainSpec \<Rightarrow> u64 \<Rightarrow> EpochStats option \<Rightarrow> Database \<Rightarrow> error option \<times> Database" where
  "persistSyncAssignments env cs epoch epochStats db =
     (if epoch < AltairForkEpoch cs then (None, db)
      else
        case GetValues epochStats of
          None \<Rightarrow> (None, db)
        | Some epochStatsValues \<Rightarrow>
            if EpochsPerSyncCommitteePeriod cs = 0 then (Some Panic, db)
            else
              let period = epoch div EpochsPerSyncCommitteePeriod cs;
                  isStartOfPeriod = (epoch = period * EpochsPerSyncCommitteePeriod cs)
              in if \<not> isStartOfPeriod \<and> IsSyncCommitteeSynchronized env db period then (None, db)
                 else
                   let syncAssignments =
                         buildSyncAssignments period (SyncCommitteeDuties epochStatsValues)
                   in case InsertSyncAssignments env syncAssignments db of
                        Inl e \<Rightarrow> (Some e, db)
                      | Inr db1 \<Rightarrow> (None, db1))"



text \<open>
  For the proofs: the first \<open>n\<close> turns of each of the two slot loops, as recursion on \<open>n\<close>.
\<close>

fun aggregateTurns ::
  "(Block \<Rightarrow> u64 option \<Rightarrow> 'st \<Rightarrow> u64 option \<times> 'st) option \<Rightarrow> Block list \<Rightarrow> nat \<Rightarrow> u64 \<Rightarrow> nat \<Rightarrow>
   u64 option \<Rightarrow> Epoch \<Rightarrow> 'st \<Rightarrow> nat \<times> u64 option \<times> Epoch \<times> 'st" where
  "aggregateTurns blockFn blocks 0 slot blockIdx depositIndex dbEpoch st =
     (blockIdx, depositIndex, dbEpoch, st)"
| "aggregateTurns blockFn blocks (Suc n) slot blockIdx depositIndex dbEpoch st =
     (case aggregateStep blockFn blocks slot blockIdx depositIndex dbEpoch st of
        (blockIdx1, depositIndex1, dbEpoch1, st1) \<Rightarrow>
          aggregateTurns blockFn blocks n (slot + 1) blockIdx1 depositIndex1 dbEpoch1 st1)"

fun missedTurns ::
  "DbEnv \<Rightarrow> EpochStatsValues option \<Rightarrow> Block list \<Rightarrow> u64 \<Rightarrow> nat \<Rightarrow> u64 \<Rightarrow> nat \<Rightarrow> Database \<Rightarrow>
   error option \<times> Database" where
  "missedTurns env epochStatsValues blocks firstSlot 0 slot blockIdx db = (None, db)"
| "missedTurns env epochStatsValues blocks firstSlot (Suc n) slot blockIdx db =
     (case missedSlotStep env epochStatsValues blocks firstSlot slot blockIdx db of
        Inl e \<Rightarrow> (Some e, db)
      | Inr (blockIdx1, db1) \<Rightarrow>
          missedTurns env epochStatsValues blocks firstSlot n (slot + 1) blockIdx1 db1)"

text \<open>
  The number of turns, among \<open>n\<close> turns from \<open>slot\<close> on, at which the cursor finds a block
  of the slot. Both loops move the cursor by the same test.
\<close>

fun matchedSlots :: "Block list \<Rightarrow> nat \<Rightarrow> u64 \<Rightarrow> nat \<Rightarrow> nat" where
  "matchedSlots blocks 0 slot blockIdx = 0"
| "matchedSlots blocks (Suc n) slot blockIdx =
     (if blockAt blocks blockIdx slot then Suc (matchedSlots blocks n (slot + 1) (blockIdx + 1))
      else matchedSlots blocks n (slot + 1) blockIdx)"

text \<open>
  For the statements about missing slots: the slots of an epoch in order, the \<open>Missing\<close>
  row of a slot as the spec describes it (proposer taken from \<open>ProposerDuties\<close> at the slot's
  index in the epoch), and whether \<open>ProposerDuties\<close> has an entry for the slot.
\<close>

fun slotsFrom :: "u64 \<Rightarrow> nat \<Rightarrow> u64 list" where
  "slotsFrom slot 0 = []"
| "slotsFrom slot (Suc n) = slot # slotsFrom (slot + 1) n"

definition epochSlots :: "ChainSpec \<Rightarrow> u64 \<Rightarrow> u64 list" where
  "epochSlots cs epoch = slotsFrom (EpochStartSlot cs epoch) (unat (SlotsPerEpoch cs))"

definition missingRow :: "EpochStatsValues \<Rightarrow> u64 \<Rightarrow> u64 \<Rightarrow> SlotHeader" where
  "missingRow v firstSlot slot =
     \<lparr>SlotHeader_Slot = slot,
      SlotHeader_Proposer = ProposerDuties v ! unat (slot - firstSlot),
      SlotHeader_Status = Missing\<rparr>"

definition hasDuty :: "EpochStatsValues \<Rightarrow> u64 \<Rightarrow> u64 \<Rightarrow> bool" where
  "hasDuty v firstSlot slot \<longleftrightarrow> unat (slot - firstSlot) < length (ProposerDuties v)"

section \<open>Fixtures\<close>

text \<open>Concrete chain specs, controller states, blocks and databases for the closed theorems.\<close>

definition mainnet :: ChainSpec where
  "mainnet = \<lparr>SlotsPerEpoch = 32, AltairForkEpoch = 74240, EpochsPerSyncCommitteePeriod = 256\<rparr>"

definition idle :: "u64 \<Rightarrow> Indexer" where
  "idle e = \<lparr>running = True, lastFinalizedEpoch = e, lastPrunedEpoch = e, lastPruneRunEpoch = e,
             pruneRuns = 0, pruneState = e, pruneStateWrites = 0, logged = []\<rparr>"

definition ev12 :: Finality where
  "ev12 = \<lparr>FinalizedEpoch = 12, FinalizedRoot = 0\<rparr>"

definition stats12 :: EpochStatsValues where
  "stats12 = \<lparr>ActiveValidators = 4, EffectiveBalance = 128, ActiveBalance = 128,
     FirstDepositIndex = 7, ProposerDuties = [1, 2, 3, 0], AttesterDuties = [[0, 1], [2, 3]],
     SyncCommitteeDuties = [3, 1]\<rparr>"

definition duty12 :: UnfinalizedDuty where
  "duty12 = \<lparr>Duty_Epoch = 12, Duty_DependentRoot = 1, Duty_DutiesSSZ = []\<rparr>"

definition cold :: "u64 \<Rightarrow> Restart" where
  "cold e = \<lparr>Restart_indexer = (idle e)\<lparr>running := False\<rparr>, Restart_cache = Map.empty,
             restoredEpochStats = 0\<rparr>"

definition noFaults :: DbEnv where
  "noFaults = \<lparr>failInsertSlot = (\<lambda>row. False), failInsertMissingSlot = (\<lambda>row. False),
     failInsertEpoch = (\<lambda>row. False), failInsertDeposits = (\<lambda>rows. False),
     failInsertVoluntaryExits = (\<lambda>rows. False), failInsertSlashings = (\<lambda>rows. False),
     failInsertSyncAssignments = (\<lambda>rows. False),
     IsSyncCommitteeSynchronized = (\<lambda>db period. list_ex (\<lambda>r. Sync_Period r = period) (db_sync_assignments db))\<rparr>"

definition emptyDb :: Database where
  "emptyDb = \<lparr>db_slots = [], db_missing_slots = [], db_epochs = [], db_deposits = [],
     db_voluntary_exits = [], db_slashings = [], db_sync_assignments = [], writerLog = []\<rparr>"

definition keepCommon :: "u64 list \<Rightarrow> u64 list \<Rightarrow> u64 list" where
  "keepCommon a b = filter (\<lambda>x. x \<in> set b) a"

definition slashBody :: BlockBody where
  "slashBody = \<lparr>Body_ProposerIndex = Some 9, Body_Attestations = Some [], Body_Deposits = Some [],
     Body_VoluntaryExits = Some [],
     Body_AttesterSlashings = Some [\<lparr>Attestation1 = Some \<lparr>AttestingIndices = Some [1, 2, 3]\<rparr>,
                                     Attestation2 = Some \<lparr>AttestingIndices = Some [2, 3, 4]\<rparr>\<rparr>],
     Body_ProposerSlashings = Some [\<lparr>SignedHeader1_ProposerIndex = 5, SignedHeader2_ProposerIndex = 5\<rparr>],
     Body_BLSToExecutionChanges = Some []\<rparr>"

definition slashBlock :: Block where
  "slashBlock = \<lparr>Block_Root = 77, Block_Slot = 40, Block_forkId = 3,
     Block_header = \<lparr>Header_Slot = 40, Header_ProposerIndex = 9, Header_ParentRoot = 76,
                     Header_StateRoot = 0\<rparr>,
     Block_block = Some slashBody\<rparr>"

definition slashRow :: "bool \<Rightarrow> u64 \<Rightarrow> u64 \<Rightarrow> u64 \<Rightarrow> SlashingReason \<Rightarrow> Slashing" where
  "slashRow orphaned forkId slotIndex validator reason =
     \<lparr>Slashing_SlotNumber = 40, Slashing_SlotIndex = slotIndex, Slashing_SlotRoot = 77,
      Slashing_Orphaned = orphaned, Slashing_ForkId = forkId, Slashing_ValidatorIndex = validator,
      Slashing_SlasherIndex = 9, Slashing_Reason = reason\<rparr>"

definition withSyncDuties :: "u64 list \<Rightarrow> EpochStats" where
  "withSyncDuties duties =
     \<lparr>Stats_epoch = 0, Stats_dependentRoot = 0,
      Stats_values = Some (stats12\<lparr>SyncCommitteeDuties := duties\<rparr>),
      isInDb = False, Stats_pruned = False\<rparr>"


definition syncedDb :: Database where
  "syncedDb = emptyDb\<lparr>db_sync_assignments :=
     [\<lparr>Sync_Period = 290, Sync_Index = 0, Sync_Validator = 11\<rparr>,
      \<lparr>Sync_Period = 290, Sync_Index = 1, Sync_Validator = 22\<rparr>]\<rparr>"

definition tiny :: ChainSpec where
  "tiny = \<lparr>SlotsPerEpoch = 4, AltairForkEpoch = 0, EpochsPerSyncCommitteePeriod = 8\<rparr>"

definition bodyWith :: "nat \<Rightarrow> u64 list \<Rightarrow> BlockBody" where
  "bodyWith attestations amounts =
     \<lparr>Body_ProposerIndex = Some 9,
      Body_Attestations = Some (replicate attestations \<lparr>Attestation_Slot = 0, Attestation_Index = 0\<rparr>),
      Body_Deposits = Some (map (\<lambda>a. \<lparr>PublicKey = [], WithdrawalCredentials = [], Amount = a\<rparr>) amounts),
      Body_VoluntaryExits = Some [], Body_AttesterSlashings = Some [],
      Body_ProposerSlashings = Some [], Body_BLSToExecutionChanges = Some []\<rparr>"

definition blockOf :: "u64 \<Rightarrow> Root \<Rightarrow> u64 \<Rightarrow> BlockBody \<Rightarrow> Block" where
  "blockOf slot root forkId body =
     \<lparr>Block_Root = root, Block_Slot = slot, Block_forkId = forkId,
      Block_header = \<lparr>Header_Slot = slot, Header_ProposerIndex = 9, Header_ParentRoot = 0,
                      Header_StateRoot = 0\<rparr>,
      Block_block = Some body\<rparr>"

definition epoch1Blocks :: "Block list" where
  "epoch1Blocks = [blockOf 4 104 2 (bodyWith 1 [32]), blockOf 5 105 2 (bodyWith 2 [1, 2]),
                   blockOf 7 107 2 (bodyWith 0 [])]"

definition statsOf :: "EpochStatsValues option \<Rightarrow> EpochStats" where
  "statsOf v = \<lparr>Stats_epoch = 1, Stats_dependentRoot = 100, Stats_values = v,
                isInDb = False, Stats_pruned = False\<rparr>"

definition slotRow :: "u64 \<Rightarrow> Root \<Rightarrow> SlotStatus \<Rightarrow> u64 \<Rightarrow> u64 \<Rightarrow> u64 \<Rightarrow> Slot" where
  "slotRow slot root status forkId attestations deposits =
     \<lparr>Slot_Slot = slot, Slot_Proposer = 9, Slot_Status = status, Slot_ForkId = forkId,
      Slot_Root = root, Slot_ParentRoot = 0, Slot_StateRoot = 0,
      Slot_AttestationCount = attestations, Slot_DepositCount = deposits, Slot_ExitCount = 0,
      Slot_AttesterSlashingCount = 0, Slot_ProposerSlashingCount = 0, Slot_BLSChangeCount = 0\<rparr>"

definition depositRow :: "u64 \<Rightarrow> u64 \<Rightarrow> u64 \<Rightarrow> Root \<Rightarrow> u64 \<Rightarrow> Deposit" where
  "depositRow index slot slotIndex root amount =
     \<lparr>Deposit_Index = Some index, Deposit_SlotNumber = slot, Deposit_SlotIndex = slotIndex,
      Deposit_SlotRoot = root, Deposit_Orphaned = False, Deposit_ForkId = 0,
      Deposit_PublicKey = [], Deposit_WithdrawalCredentials = [], Deposit_Amount = amount\<rparr>"

definition epoch1Row :: "u64 \<Rightarrow> u64 \<Rightarrow> u64 \<Rightarrow> Epoch" where
  "epoch1Row validators balance eligible =
     \<lparr>Epoch_Epoch = 1, Epoch_ValidatorCount = validators, Epoch_ValidatorBalance = balance,
      Epoch_Eligible = eligible, Epoch_VotedTarget = 0, Epoch_VotedHead = 0, Epoch_VotedTotal = 0,
      Epoch_BlockCount = 3, Epoch_AttestationCount = 3, Epoch_DepositCount = 3,
      Epoch_ExitCount = 0, Epoch_AttesterSlashingCount = 0, Epoch_ProposerSlashingCount = 0,
      Epoch_BLSChangeCount = 0\<rparr>"

definition epoch1Db :: "u64 \<Rightarrow> Epoch \<Rightarrow> Database" where
  "epoch1Db proposer row =
     \<lparr>db_slots = [slotRow 4 104 Canonical 0 1 1, slotRow 5 105 Canonical 0 2 2,
                  slotRow 7 107 Canonical 0 0 0],
      db_missing_slots = [\<lparr>SlotHeader_Slot = 6, SlotHeader_Proposer = proposer,
                           SlotHeader_Status = Missing\<rparr>],
      db_epochs = [row],
      db_deposits = [depositRow 7 4 0 104 32, depositRow 8 5 0 105 1, depositRow 9 5 1 105 2],
      db_voluntary_exits = [], db_slashings = [], db_sync_assignments = [], writerLog = []\<rparr>"


definition orphanAt5 :: Block where
  "orphanAt5 = blockOf 5 205 3 (bodyWith 2 [])"





section \<open>Controller: theorems\<close>

text \<open>
  C7. On a wall-clock slot event the prune pass is meant to run when no pass has run in the
  event's epoch and the slot index is at least \<open>SlotsPerEpoch / 2\<close>. With 32 slots per epoch
  and the controller's last prune run in epoch 9, the event for slot 336 (epoch 10, slot index
  16 = 32 / 2) leaves the controller untouched: \<open>100 / 32 = 3\<close> and \<open>3 * 16 = 48 < 50\<close>.
  The pass first runs one slot later, at slot index 17.
\<close>

theorem C7_halfway_slot_not_pruned:
  "EpochOfSlot mainnet 336 = 10 \<and> SlotToSlotIndex mainnet 336 = 16
   \<and> 16 \<ge> SlotsPerEpoch mainnet div 2
   \<and> (10 :: u64) > lastPruneRunEpoch (idle 9)
   \<and> slotProgress mainnet 16 = 48
   \<and> onWallclockSlot mainnet False 336 (idle 9) = Inr (idle 9)
   \<and> pruneRuns (idle 9) = 0
   \<and> onWallclockSlot mainnet False 337 (idle 9)
       = Inr ((idle 9)\<lparr>lastPruneRunEpoch := 10, pruneRuns := 1\<rparr>)"
  by (simp add: onWallclockSlot_def EpochOfSlot_def SlotToSlotIndex_def slotProgress_def
      runCachePruning_def mainnet_def idle_def Let_def)

text \<open>
  C8 (as amended). The error of \<open>processFinalityEvent\<close> is only logged. Whatever it returns,
  the loop moves \<open>lastPrunedEpoch\<close> up to \<open>lastFinalizedEpoch\<close> and attempts to persist the
  cursor exactly when, after processing, \<open>lastFinalizedEpoch > lastPrunedEpoch\<close>; otherwise
  the pruning state stays as processing left it. The persisted cursor follows unless the
  write itself fails.
\<close>

theorem C8_prune_state_follows_epochs:
  assumes "process ev ix = (err, ix1)"
  shows "lastPrunedEpoch (onFinalityEvent process updateFails pruneFails now ev ix)
           = (if lastFinalizedEpoch ix1 > lastPrunedEpoch ix1 then lastFinalizedEpoch ix1
              else lastPrunedEpoch ix1)
       \<and> pruneStateWrites (onFinalityEvent process updateFails pruneFails now ev ix)
           = (if lastFinalizedEpoch ix1 > lastPrunedEpoch ix1 then pruneStateWrites ix1 + 1
              else pruneStateWrites ix1)
       \<and> pruneState (onFinalityEvent process updateFails pruneFails now ev ix)
           = (if lastFinalizedEpoch ix1 > lastPrunedEpoch ix1 \<and> \<not> updateFails
              then lastFinalizedEpoch ix1 else pruneState ix1)"
  using assms
  by (cases err) (simp_all add: onFinalityEvent_def updatePruningState_def runCachePruning_def Let_def)

text \<open>
  C8 as stated fails: processing the finality event for epoch 12 returns an error (the epoch
  persistence failed after the new finalized epoch was recorded), and the loop still moves
  \<open>lastPrunedEpoch\<close> and the persisted cursor from 10 to 12.
\<close>

theorem C8_failed_event_moves_cursor:
  "fst (processFinalityEvent True ev12 (idle 10)) = Some ErrFinality
   \<and> lastPrunedEpoch (idle 10) = 10 \<and> pruneState (idle 10) = 10
   \<and> lastPrunedEpoch (onFinalityEvent (processFinalityEvent True) False False 12 ev12 (idle 10)) = 12
   \<and> pruneState (onFinalityEvent (processFinalityEvent True) False False 12 ev12 (idle 10)) = 12"
  by (simp add: onFinalityEvent_def processFinalityEvent_def updatePruningState_def
      runCachePruning_def idle_def ev12_def Let_def)

theorem C8_witness:
  "processFinalityEvent True ev12 (idle 10) = (Some ErrFinality, (idle 10)\<lparr>lastFinalizedEpoch := 12\<rparr>)
   \<and> lastPrunedEpoch (onFinalityEvent (processFinalityEvent True) False False 12 ev12 (idle 10)) = 12
   \<and> pruneStateWrites (onFinalityEvent (processFinalityEvent True) False False 12 ev12 (idle 10)) = 1
   \<and> pruneState (onFinalityEvent (processFinalityEvent True) False False 12 ev12 (idle 10)) = 12"
proof -
  have h: "processFinalityEvent True ev12 (idle 10) = (Some ErrFinality, (idle 10)\<lparr>lastFinalizedEpoch := 12\<rparr>)"
    by (simp add: processFinalityEvent_def ev12_def Let_def)
  show ?thesis
    using h C8_prune_state_follows_epochs [where process = "processFinalityEvent True" and ev = ev12
        and ix = "idle 10" and updateFails = False and pruneFails = False and now = 12, OF h]
    by (simp add: idle_def)
qed


section \<open>Restart recovery: theorems\<close>

lemma restoreDuty_indexer_cursor:
  "lastPrunedEpoch (Restart_indexer (restoreDuty decode fe d st)) = lastPrunedEpoch (Restart_indexer st)"
  by (simp add: restoreDuty_def createOrGetEpochStats_def restoreFromDb_def Let_def
      split: option.splits sum.splits prod.splits)

lemma restoreDuty_other_key:
  "k \<noteq> dutyKey d \<Longrightarrow> Restart_cache (restoreDuty decode fe d st) k = Restart_cache st k"
  by (auto simp add: restoreDuty_def createOrGetEpochStats_def restoreFromDb_def Let_def dutyKey_def
      split: option.splits sum.splits prod.splits)

lemma restoreDuty_own_key:
  assumes "decode d = Some v" "\<not> Duty_Epoch d < fe"
  shows "\<exists>es. Restart_cache (restoreDuty decode fe d st) (dutyKey d) = Some es \<and> isInDb es
     \<and> Stats_values es = Some (if Duty_Epoch d < lastPrunedEpoch (Restart_indexer st) then dropDuties v else v)
     \<and> Stats_pruned es = (Duty_Epoch d < lastPrunedEpoch (Restart_indexer st) \<or> priorPruned (Restart_cache st) (dutyKey d))"
  using assms
  by (auto simp add: restoreDuty_def createOrGetEpochStats_def restoreFromDb_def Let_def dutyKey_def
      pruneValues_def priorPruned_def split: option.splits)

lemma fold_restoreDuty_cursor:
  "lastPrunedEpoch (Restart_indexer (fold (restoreDuty decode fe) ds st)) = lastPrunedEpoch (Restart_indexer st)"
  by (induction ds arbitrary: st) (simp_all add: restoreDuty_indexer_cursor)

lemma fold_restoreDuty_other_key:
  "k \<notin> dutyKey ` set ds \<Longrightarrow> Restart_cache (fold (restoreDuty decode fe) ds st) k = Restart_cache st k"
  by (induction ds arbitrary: st) (simp_all add: restoreDuty_other_key)

lemma fold_restoreDuty_own_key:
  assumes "d \<in> set ds" "distinct (map dutyKey ds)" "decode d = Some v" "\<not> Duty_Epoch d < fe"
  shows "\<exists>es. Restart_cache (fold (restoreDuty decode fe) ds st) (dutyKey d) = Some es \<and> isInDb es
     \<and> Stats_values es = Some (if Duty_Epoch d < lastPrunedEpoch (Restart_indexer st) then dropDuties v else v)
     \<and> Stats_pruned es = (Duty_Epoch d < lastPrunedEpoch (Restart_indexer st) \<or> priorPruned (Restart_cache st) (dutyKey d))"
  using assms(1,2)
proof (induction ds arbitrary: st)
  case Nil
  then show ?case by simp
next
  case (Cons a ds)
  show ?case
  proof (cases "a = d")
    case True
    from Cons.prems have "dutyKey d \<notin> dutyKey ` set ds" using True by simp
    then have "Restart_cache (fold (restoreDuty decode fe) (a # ds) st) (dutyKey d)
        = Restart_cache (restoreDuty decode fe d st) (dutyKey d)"
      using True by (simp add: fold_restoreDuty_other_key)
    then show ?thesis
      using restoreDuty_own_key [where decode = decode and d = d and v = v and fe = fe and st = st,
          OF assms(3,4)] by simp
  next
    case False
    with Cons.prems have in_ds: "d \<in> set ds" and dist: "distinct (map dutyKey ds)"
      and ne: "dutyKey d \<noteq> dutyKey a" by (auto simp: image_iff)
    have "priorPruned (Restart_cache (restoreDuty decode fe a st)) (dutyKey d)
        = priorPruned (Restart_cache st) (dutyKey d)"
      by (simp add: priorPruned_def restoreDuty_other_key [OF ne])
    then show ?thesis
      using Cons.IH [OF in_ds dist, of "restoreDuty decode fe a st"]
      by (simp add: restoreDuty_indexer_cursor)
  qed
qed

lemma StartIndexer_cursor:
  "\<not> running (Restart_indexer st) \<Longrightarrow>
   lastPrunedEpoch (Restart_indexer (StartIndexer decode uf fe now ds st))
     = (if pruneState (Restart_indexer st) < fe then fe else pruneState (Restart_indexer st))"
  by (simp add: StartIndexer_def Let_def fold_restoreDuty_cursor updatePruningState_def)

text \<open>
  C9 (as amended). After the restart, every recovery-log row that is restored (its epoch is
  not below the finalized epoch, its duties decode, keys of the rows are pairwise different)
  has its cache entry's duty arrays discarded exactly when its epoch is strictly below
  \<open>lastPrunedEpoch\<close>; an entry at or above \<open>lastPrunedEpoch\<close> keeps the decoded values.
\<close>

theorem C9_restored_values_pruned_below_cursor:
  assumes "\<not> running (Restart_indexer st)"
    and "d \<in> set duties" and "distinct (map dutyKey duties)"
    and "decode d = Some v" and "\<not> Duty_Epoch d < finalizedEpoch"
  shows "map_option Stats_values
           (Restart_cache (StartIndexer decode updateFails finalizedEpoch now duties st) (dutyKey d))
         = Some (Some (if Duty_Epoch d
                            < lastPrunedEpoch (Restart_indexer
                                (StartIndexer decode updateFails finalizedEpoch now duties st))
                       then dropDuties v else v))"
proof -
  let ?st0 = "st\<lparr>Restart_indexer :=
      (let ix1 = (Restart_indexer st)\<lparr>running := True, lastFinalizedEpoch := finalizedEpoch\<rparr>;
            ix2 = ix1\<lparr>lastPrunedEpoch := pruneState ix1\<rparr>;
            ix3 = (if lastPrunedEpoch ix2 < finalizedEpoch
                   then updatePruningState updateFails (ix2\<lparr>lastPrunedEpoch := finalizedEpoch\<rparr>)
                   else ix2)
       in ix3\<lparr>lastPruneRunEpoch := now\<rparr>), restoredEpochStats := 0\<rparr>"
  have unfold: "StartIndexer decode updateFails finalizedEpoch now duties st
      = fold (restoreDuty decode finalizedEpoch) duties ?st0"
    using assms(1) by (simp add: StartIndexer_def Let_def)
  obtain es where es: "Restart_cache (fold (restoreDuty decode finalizedEpoch) duties ?st0) (dutyKey d) = Some es"
    "Stats_values es = Some (if Duty_Epoch d < lastPrunedEpoch (Restart_indexer ?st0) then dropDuties v else v)"
    using fold_restoreDuty_own_key [where decode = decode and d = d and v = v
        and fe = finalizedEpoch and ds = duties and st = ?st0, OF assms(2,3,4,5)] by blast
  show ?thesis
    unfolding unfold using es by (simp add: fold_restoreDuty_cursor)
qed

text \<open>
  C9 as stated fails at equality: with the finalized epoch 10 and the persisted prune cursor
  12, the restored entry of epoch 12 (not greater than \<open>lastPrunedEpoch = 12\<close>) keeps its
  duty arrays and is not flagged as pruned.
\<close>

theorem C9_entry_at_cursor_keeps_duties:
  "lastPrunedEpoch (Restart_indexer (StartIndexer (\<lambda>d. Some stats12) False 10 13 [duty12] (cold 12))) = 12
   \<and> Duty_Epoch duty12 \<le> 12
   \<and> map_option Stats_values
       (Restart_cache (StartIndexer (\<lambda>d. Some stats12) False 10 13 [duty12] (cold 12)) (12, 1))
     = Some (Some stats12)
   \<and> map_option Stats_pruned
       (Restart_cache (StartIndexer (\<lambda>d. Some stats12) False 10 13 [duty12] (cold 12)) (12, 1))
     = Some False
   \<and> ProposerDuties stats12 = [1, 2, 3, 0]"
  by (simp add: StartIndexer_def restoreDuty_def createOrGetEpochStats_def restoreFromDb_def
      cold_def idle_def duty12_def Let_def stats12_def)

theorem C9_witness:
  "\<not> running (Restart_indexer (cold 13)) \<and> duty12 \<in> set [duty12] \<and> distinct (map dutyKey [duty12])
   \<and> \<not> Duty_Epoch duty12 < 10
   \<and> map_option Stats_values
       (Restart_cache (StartIndexer (\<lambda>d. Some stats12) False 10 13 [duty12] (cold 13)) (dutyKey duty12))
     = Some (Some (dropDuties stats12))"
proof -
  have h1: "\<not> running (Restart_indexer (cold 13))" by (simp add: cold_def)
  have h2: "duty12 \<in> set [duty12]" by simp
  have h3: "distinct (map dutyKey [duty12])" by simp
  have h4: "(\<lambda>d. Some stats12) duty12 = Some stats12" by simp
  have h5: "\<not> Duty_Epoch duty12 < 10" by (simp add: duty12_def)
  have c: "lastPrunedEpoch (Restart_indexer (StartIndexer (\<lambda>d. Some stats12) False 10 13 [duty12] (cold 13))) = 13"
    by (simp add: StartIndexer_cursor h1) (simp add: cold_def idle_def)
  show ?thesis
    using C9_restored_values_pruned_below_cursor [where decode = "\<lambda>d. Some stats12"
        and d = duty12 and v = stats12 and duties = "[duty12]" and st = "cold 13"
        and finalizedEpoch = 10 and updateFails = False and now = 13, OF h1 h2 h3 h4 h5] h1 h5 c
    by (simp add: cold_def duty12_def)
qed

section \<open>DB writer: slashings\<close>



lemma proposerSlashingRows_fields:
  "r \<in> set (proposerSlashingRows block orphaned ovr pidx k pss) \<Longrightarrow>
     Slashing_Reason r = ProposerSlashing \<and> Slashing_Orphaned r = orphaned
     \<and> Slashing_ForkId r = (case ovr of None \<Rightarrow> Block_forkId block | Some f \<Rightarrow> f)"
  by (induction pss arbitrary: k) auto

lemma attesterSlashingRows_fields:
  "r \<in> set (attesterSlashingRows isect block pidx k ass) \<Longrightarrow>
     Slashing_Reason r = AttesterSlashing \<and> \<not> Slashing_Orphaned r \<and> Slashing_ForkId r = 0"
  by (induction ass arbitrary: k) (auto simp: attesterSlashingRow_def split: option.splits)











lemma slashBlock_rows:
  "buildDbSlashings keepCommon slashBlock True (Some 7)
     = [slashRow True 7 0 5 ProposerSlashing, slashRow False 0 1 2 AttesterSlashing,
        slashRow False 0 1 3 AttesterSlashing]"
  by (simp add: buildDbSlashings_def slashBlock_def slashBody_def slashingIndices_def
      keepCommon_def attesterSlashingRow_def slashRow_def)

lemma slashBlock_persisted:
  "persistBlockSlashings noFaults keepCommon slashBlock True (Some 7) emptyDb
     = (None, emptyDb\<lparr>db_slashings :=
          [slashRow True 7 0 5 ProposerSlashing, slashRow False 0 1 2 AttesterSlashing,
           slashRow False 0 1 3 AttesterSlashing]\<rparr>)"
  by (simp add: persistBlockSlashings_def slashBlock_rows InsertSlashings_def noFaults_def
      emptyDb_def Let_def)

text \<open>
  C10. For a block persisted with a non-nil \<open>overrideForkId\<close>, whatever the \<open>orphaned\<close> flag:
  the rows inserted are the rows \<open>buildDbSlashings\<close> built; those for attester slashings have
  \<open>Orphaned = false\<close> and \<open>ForkId = 0\<close>, those for proposer slashings have
  \<open>Orphaned = orphaned\<close> and \<open>ForkId = overrideForkId\<close>.
\<close>

theorem C10_attester_rows_ignore_orphaned_and_fork:
  assumes "persistBlockSlashings env intersectSimple block orphaned (Some forkId) db = (None, db1)"
  shows "db_slashings db1
           = db_slashings db @ buildDbSlashings intersectSimple block orphaned (Some forkId)
       \<and> (\<forall>r \<in> set (buildDbSlashings intersectSimple block orphaned (Some forkId)).
            if Slashing_Reason r = AttesterSlashing
            then \<not> Slashing_Orphaned r \<and> Slashing_ForkId r = 0
            else Slashing_Reason r = ProposerSlashing
                 \<and> Slashing_Orphaned r = orphaned \<and> Slashing_ForkId r = forkId)"
proof -
  have "db_slashings db1
      = db_slashings db @ buildDbSlashings intersectSimple block orphaned (Some forkId)"
    using assms
    by (auto simp: persistBlockSlashings_def InsertSlashings_def Let_def split: if_splits)
  moreover have "\<forall>r \<in> set (buildDbSlashings intersectSimple block orphaned (Some forkId)).
            if Slashing_Reason r = AttesterSlashing
            then \<not> Slashing_Orphaned r \<and> Slashing_ForkId r = 0
            else Slashing_Reason r = ProposerSlashing
                 \<and> Slashing_Orphaned r = orphaned \<and> Slashing_ForkId r = forkId"
    by (auto simp: buildDbSlashings_def split: option.splits
        dest: proposerSlashingRows_fields attesterSlashingRows_fields)
  ultimately show ?thesis by blast
qed

theorem C10_witness:
  "persistBlockSlashings noFaults keepCommon slashBlock True (Some 7) emptyDb
     = (None, emptyDb\<lparr>db_slashings :=
          [slashRow True 7 0 5 ProposerSlashing, slashRow False 0 1 2 AttesterSlashing,
           slashRow False 0 1 3 AttesterSlashing]\<rparr>)
   \<and> list_all (\<lambda>r. if Slashing_Reason r = AttesterSlashing
                     then \<not> Slashing_Orphaned r \<and> Slashing_ForkId r = 0
                     else Slashing_Reason r = ProposerSlashing
                          \<and> Slashing_Orphaned r = True \<and> Slashing_ForkId r = 7)
       (buildDbSlashings keepCommon slashBlock True (Some 7))
   \<and> length (buildDbSlashings keepCommon slashBlock True (Some 7)) = 3"
  using C10_attester_rows_ignore_orphaned_and_fork [OF slashBlock_persisted] slashBlock_persisted
  by (simp add: list_all_iff slashBlock_rows)

section \<open>DB writer: sync-committee assignments\<close>

lemma period_of_epoch:
  fixes N P k :: u64
  assumes "unat N * unat P + unat k < 2 ^ 64" and "k < P"
  shows "(N * P + k) div P = N" and "N * P + k = N * P \<longleftrightarrow> k = 0"
proof -
  have m: "unat (N * P) = unat N * unat P"
    using assms(1) unat_mult_lem [of N P] by simp
  have a: "unat (N * P + k) = unat N * unat P + unat k"
    using assms(1) m unat_add_lem [of "N * P" k] by simp
  have kP: "unat k < unat P" using assms(2) by (simp add: word_less_nat_alt)
  have "unat ((N * P + k) div P) = (unat N * unat P + unat k) div unat P"
    by (simp add: unat_div a)
  also have "\<dots> = unat N" using kP by simp
  finally show "(N * P + k) div P = N" by (simp add: word_unat_eq_iff)
  show "N * P + k = N * P \<longleftrightarrow> k = 0" by simp
qed

lemma buildSyncAssignments_rows:
  "length (buildSyncAssignments period duties) = length duties"
  "map Sync_Validator (buildSyncAssignments period duties) = duties"
  "map Sync_Period (buildSyncAssignments period duties) = replicate (length duties) period"
proof -
  let ?row = "\<lambda>(idx, val). \<lparr>Sync_Period = period, Sync_Index = of_nat idx, Sync_Validator = val\<rparr>"
  have v: "Sync_Validator \<circ> ?row = snd" by (auto simp: fun_eq_iff)
  have p: "Sync_Period \<circ> ?row = (\<lambda>x. period)" by (auto simp: fun_eq_iff)
  show "length (buildSyncAssignments period duties) = length duties"
    by (simp add: buildSyncAssignments_def)
  show "map Sync_Validator (buildSyncAssignments period duties) = duties"
    unfolding buildSyncAssignments_def map_map v by simp
  show "map Sync_Period (buildSyncAssignments period duties) = replicate (length duties) period"
    unfolding buildSyncAssignments_def map_map p by (simp add: map_replicate_const)
qed

text \<open>
  C6 (as amended). Let the epoch be \<open>N * EpochsPerSyncCommitteePeriod + k\<close> with
  \<open>k < EpochsPerSyncCommitteePeriod\<close>, at or after the Altair fork epoch, with epoch stats
  values available and the insert succeeding. At the period start (\<open>k = 0\<close>) one row per
  sync-committee duty is inserted, in order, each with \<open>period = N\<close>. At a later epoch of the
  period (\<open>k > 0\<close>) nothing is inserted if the database reports period \<open>N\<close> as
  synchronized; otherwise the same rows are inserted.
\<close>

theorem C6_sync_assignments_at_period_start:
  assumes "EpochsPerSyncCommitteePeriod cs \<noteq> 0"
    and "AltairForkEpoch cs \<le> epoch"
    and "GetValues epochStats = Some v"
    and "unat N * unat (EpochsPerSyncCommitteePeriod cs) + unat k < 2 ^ 64"
    and "k < EpochsPerSyncCommitteePeriod cs"
    and "epoch = N * EpochsPerSyncCommitteePeriod cs + k"
    and "\<not> failInsertSyncAssignments env (buildSyncAssignments N (SyncCommitteeDuties v))"
  shows "persistSyncAssignments env cs epoch epochStats db
           = (if k = 0 \<or> \<not> IsSyncCommitteeSynchronized env db N
              then (None, db\<lparr>db_sync_assignments :=
                      db_sync_assignments db @ buildSyncAssignments N (SyncCommitteeDuties v)\<rparr>)
              else (None, db))
       \<and> length (buildSyncAssignments N (SyncCommitteeDuties v)) = length (SyncCommitteeDuties v)
       \<and> map Sync_Validator (buildSyncAssignments N (SyncCommitteeDuties v)) = SyncCommitteeDuties v
       \<and> map Sync_Period (buildSyncAssignments N (SyncCommitteeDuties v))
           = replicate (length (SyncCommitteeDuties v)) N"
proof -
  let ?P = "EpochsPerSyncCommitteePeriod cs"
  have p: "epoch div ?P = N" and s: "epoch = N * ?P \<longleftrightarrow> k = 0"
    using period_of_epoch [OF assms(4,5)] assms(6) by simp_all
  have "\<not> epoch < AltairForkEpoch cs" using assms(2) by simp
  then have "persistSyncAssignments env cs epoch epochStats db
           = (if k = 0 \<or> \<not> IsSyncCommitteeSynchronized env db N
              then (None, db\<lparr>db_sync_assignments :=
                      db_sync_assignments db @ buildSyncAssignments N (SyncCommitteeDuties v)\<rparr>)
              else (None, db))"
    using assms(1,3,7) s
    by (auto simp add: persistSyncAssignments_def p InsertSyncAssignments_def Let_def)
  then show ?thesis by (simp add: buildSyncAssignments_rows)
qed

text \<open>
  C6 as stated fails for a later epoch of a period the database does not report as
  synchronized: epoch 74241 is the second epoch of period 290 (256 epochs per period), and
  on a database without sync assignments the rows of period 290 are inserted.
\<close>

theorem C6_later_epoch_inserts_again:
  "AltairForkEpoch mainnet \<le> 74241
   \<and> (74241 :: u64) div EpochsPerSyncCommitteePeriod mainnet = 290
   \<and> (74241 :: u64) \<noteq> 290 * EpochsPerSyncCommitteePeriod mainnet
   \<and> persistSyncAssignments noFaults mainnet 74241 (Some (withSyncDuties [11, 22])) emptyDb
       = (None, emptyDb\<lparr>db_sync_assignments :=
            [\<lparr>Sync_Period = 290, Sync_Index = 0, Sync_Validator = 11\<rparr>,
             \<lparr>Sync_Period = 290, Sync_Index = 1, Sync_Validator = 22\<rparr>]\<rparr>)"
  by (simp add: persistSyncAssignments_def mainnet_def withSyncDuties_def GetValues_def noFaults_def
      emptyDb_def stats12_def InsertSyncAssignments_def buildSyncAssignments_def Let_def)

theorem C6_witness:
  "persistSyncAssignments noFaults mainnet 74240 (Some (withSyncDuties [11, 22])) emptyDb
     = (None, syncedDb)
   \<and> persistSyncAssignments noFaults mainnet 74241 (Some (withSyncDuties [11, 22])) syncedDb
     = (None, syncedDb)"
proof -
  let ?v = "stats12\<lparr>SyncCommitteeDuties := [11, 22]\<rparr>"
  have h1: "EpochsPerSyncCommitteePeriod mainnet \<noteq> 0" by (simp add: mainnet_def)
  have h2: "AltairForkEpoch mainnet \<le> 74240" by (simp add: mainnet_def)
  have h2': "AltairForkEpoch mainnet \<le> 74241" by (simp add: mainnet_def)
  have h3: "GetValues (Some (withSyncDuties [11, 22])) = Some ?v"
    by (simp add: GetValues_def withSyncDuties_def)
  have h4: "unat (290 :: u64) * unat (EpochsPerSyncCommitteePeriod mainnet) + unat (0 :: u64) < 2 ^ 64"
    by (simp add: mainnet_def)
  have h4': "unat (290 :: u64) * unat (EpochsPerSyncCommitteePeriod mainnet) + unat (1 :: u64) < 2 ^ 64"
    by (simp add: mainnet_def)
  have h5: "(0 :: u64) < EpochsPerSyncCommitteePeriod mainnet" by (simp add: mainnet_def)
  have h5': "(1 :: u64) < EpochsPerSyncCommitteePeriod mainnet" by (simp add: mainnet_def)
  have h6: "(74240 :: u64) = 290 * EpochsPerSyncCommitteePeriod mainnet + 0" by (simp add: mainnet_def)
  have h6': "(74241 :: u64) = 290 * EpochsPerSyncCommitteePeriod mainnet + 1" by (simp add: mainnet_def)
  have h7: "\<not> failInsertSyncAssignments noFaults (buildSyncAssignments 290 (SyncCommitteeDuties ?v))"
    by (simp add: noFaults_def)
  have rows: "buildSyncAssignments 290 [11, 22]
      = [\<lparr>Sync_Period = 290, Sync_Index = 0, Sync_Validator = 11\<rparr>,
         \<lparr>Sync_Period = 290, Sync_Index = 1, Sync_Validator = 22\<rparr>]"
    by (simp add: buildSyncAssignments_def)
  have synced: "IsSyncCommitteeSynchronized noFaults syncedDb 290"
    by (simp add: noFaults_def syncedDb_def emptyDb_def)
  show ?thesis
    using C6_sync_assignments_at_period_start [where db = emptyDb, OF h1 h2 h3 h4 h5 h6 h7]
      C6_sync_assignments_at_period_start [where db = syncedDb, OF h1 h2' h3 h4' h5' h6' h7]
      synced
    by (simp add: rows syncedDb_def emptyDb_def)
qed

section \<open>DB writer: the epoch loops\<close>

lemma unat_succ_below: "(slot :: u64) < lastSlot \<Longrightarrow> unat (slot + 1) = Suc (unat slot)"
proof -
  assume "slot < lastSlot"
  then have "unat slot < unat lastSlot" by (simp add: word_less_nat_alt)
  moreover have "unat lastSlot < 2 ^ 64" using unsigned_less [of lastSlot] by simp
  ultimately have "unat slot + unat (1 :: u64) < 2 ^ LENGTH(64)" by simp
  then have "unat (slot + 1) = unat slot + unat (1 :: u64)" by (simp only: unat_add_lem)
  then show ?thesis by simp
qed

lemma unat_succ_le:
  fixes slot lastSlot :: u64
  assumes "slot \<le> lastSlot" and "unat lastSlot + 1 < 2 ^ 64"
  shows "unat (slot + 1) = Suc (unat slot)"
proof -
  have "unat slot \<le> unat lastSlot" using assms(1) by (simp add: word_le_nat_alt)
  then have "unat slot + unat (1 :: u64) < 2 ^ LENGTH(64)" using assms(2) by simp
  then have "unat (slot + 1) = unat slot + unat (1 :: u64)" by (simp only: unat_add_lem)
  then show ?thesis by simp
qed

lemma aggregateLoop_turns:
  assumes "unat slot + n = unat lastSlot + 1" and "unat lastSlot + 1 < 2 ^ 64"
  shows "aggregateLoop blockFn blocks lastSlot slot blockIdx depositIndex dbEpoch st
           = Some (snd (snd (aggregateTurns blockFn blocks n slot blockIdx depositIndex dbEpoch st)))"
  using assms(1)
proof (induction n arbitrary: slot blockIdx depositIndex dbEpoch st)
  case 0
  then have "\<not> slot \<le> lastSlot" by (simp add: word_le_nat_alt)
  then show ?case by (subst aggregateLoop.simps) simp
next
  case (Suc n)
  then have le: "slot \<le> lastSlot" by (simp add: word_le_nat_alt)
  have nxt: "unat (slot + 1) + n = unat lastSlot + 1"
    using Suc.prems unat_succ_le [OF le assms(2)] by simp
  obtain b1 d1 e1 s1 where
    step: "aggregateStep blockFn blocks slot blockIdx depositIndex dbEpoch st = (b1, d1, e1, s1)"
    by (cases "aggregateStep blockFn blocks slot blockIdx depositIndex dbEpoch st") auto
  show ?case
    using le step Suc.IH [OF nxt, of b1 d1 e1 s1]
    by (subst aggregateLoop.simps) simp
qed

lemma missedSlotsLoop_turns:
  assumes "unat slot + n = unat lastSlot"
  shows "missedSlotsLoop env vals blocks firstSlot lastSlot slot blockIdx db
           = missedTurns env vals blocks firstSlot n slot blockIdx db"
  using assms
proof (induction n arbitrary: slot blockIdx db)
  case 0
  then have "\<not> slot < lastSlot" by (simp add: word_less_nat_alt)
  then show ?case by simp
next
  case (Suc n)
  then have lt: "slot < lastSlot" by (simp add: word_less_nat_alt)
  have nxt: "unat (slot + 1) + n = unat lastSlot"
    using Suc.prems unat_succ_below [OF lt] by simp
  show ?case
    using lt Suc.IH [OF nxt]
    by (simp split: sum.splits prod.splits)
qed

lemma epoch_bounds:
  fixes firstSlot spe :: u64
  assumes "unat firstSlot + unat spe < 2 ^ 64" and "0 < spe"
  shows "unat (firstSlot + spe) = unat firstSlot + unat spe"
    and "unat (firstSlot + spe - 1) + 1 = unat firstSlot + unat spe"
proof -
  show a: "unat (firstSlot + spe) = unat firstSlot + unat spe"
    using assms(1) unat_add_lem [of firstSlot spe] by simp
  have "0 < unat spe" using assms(2) by (simp add: word_less_nat_alt)
  then have "firstSlot + spe \<noteq> 0" using a by (metis add_is_0 less_numeral_extra(3) unat_0)
  then have "unat (firstSlot + spe - 1) = unat (firstSlot + spe) - 1"
    by (simp add: unat_minus_one)
  then show "unat (firstSlot + spe - 1) + 1 = unat firstSlot + unat spe"
    using a \<open>0 < unat spe\<close> by simp
qed

lemma buildDbEpoch_turns:
  assumes "unat (EpochStartSlot cs epoch) + unat (SlotsPerEpoch cs) < 2 ^ 64"
    and "0 < SlotsPerEpoch cs"
  shows "buildDbEpoch cs epoch blocks epochStats epochVotes blockFn st
           = Some (snd (snd (aggregateTurns blockFn blocks (unat (SlotsPerEpoch cs))
                          (EpochStartSlot cs epoch) 0
                          (map_option FirstDepositIndex (GetValues epochStats))
                          (initDbEpoch epoch epochVotes (GetValues epochStats)) st)))"
proof -
  let ?first = "EpochStartSlot cs epoch"
  let ?last = "?first + SlotsPerEpoch cs - 1"
  have 1: "unat ?first + unat (SlotsPerEpoch cs) = unat ?last + 1"
    using epoch_bounds(2) [OF assms] by simp
  have 2: "unat ?last + 1 < 2 ^ 64" using 1 assms(1) by simp
  show ?thesis
    unfolding buildDbEpoch_def Let_def
    by (rule aggregateLoop_turns [OF 1 2])
qed

lemma persistMissedSlots_turns:
  assumes "unat (EpochStartSlot cs epoch) + unat (SlotsPerEpoch cs) < 2 ^ 64"
    and "0 < SlotsPerEpoch cs"
  shows "persistMissedSlots env cs epoch blocks epochStats db
           = missedTurns env (GetValues epochStats) blocks (EpochStartSlot cs epoch)
               (unat (SlotsPerEpoch cs)) (EpochStartSlot cs epoch) 0 db"
  unfolding persistMissedSlots_def Let_def
  by (rule missedSlotsLoop_turns) (simp add: epoch_bounds(1) [OF assms])

subsection \<open>What persisting one block leaves untouched\<close>

lemma persistBlockDeposits_frame:
  "persistBlockDeposits env block di orphaned ovr db = (err, di1, db1) \<Longrightarrow>
     db_slots db1 = db_slots db \<and> db_missing_slots db1 = db_missing_slots db
     \<and> db_epochs db1 = db_epochs db \<and> writerLog db1 = writerLog db"
  by (auto simp: persistBlockDeposits_def InsertDeposits_def Let_def
      split: prod.splits if_splits)

lemma persistBlockVoluntaryExits_frame:
  "persistBlockVoluntaryExits env block orphaned ovr db = (err, db1) \<Longrightarrow>
     db_slots db1 = db_slots db \<and> db_missing_slots db1 = db_missing_slots db
     \<and> db_epochs db1 = db_epochs db \<and> db_deposits db1 = db_deposits db
     \<and> writerLog db1 = writerLog db"
  by (auto simp: persistBlockVoluntaryExits_def InsertVoluntaryExits_def Let_def
      split: if_splits)

lemma persistBlockSlashings_frame:
  "persistBlockSlashings env isect block orphaned ovr db = (err, db1) \<Longrightarrow>
     db_slots db1 = db_slots db \<and> db_missing_slots db1 = db_missing_slots db
     \<and> db_epochs db1 = db_epochs db \<and> db_deposits db1 = db_deposits db
     \<and> writerLog db1 = writerLog db"
  by (auto simp: persistBlockSlashings_def InsertSlashings_def Let_def
      split: if_splits)

lemma persistBlockChildObjects_frame:
  assumes "persistBlockChildObjects env isect block di orphaned ovr db = (err, di1, db1)"
  shows "db_slots db1 = db_slots db \<and> db_missing_slots db1 = db_missing_slots db
     \<and> db_epochs db1 = db_epochs db \<and> writerLog db1 = writerLog db"
proof -
  obtain e1 d1 s1 where a: "persistBlockDeposits env block di orphaned ovr db = (e1, d1, s1)"
    by (cases "persistBlockDeposits env block di orphaned ovr db") auto
  obtain e2 s2 where b: "persistBlockVoluntaryExits env block orphaned ovr s1 = (e2, s2)"
    by (cases "persistBlockVoluntaryExits env block orphaned ovr s1") auto
  obtain e3 s3 where c: "persistBlockSlashings env isect block orphaned ovr s2 = (e3, s3)"
    by (cases "persistBlockSlashings env isect block orphaned ovr s2") auto
  have "db1 = s1 \<or> db1 = s2 \<or> db1 = s3"
    using assms a b c
    by (auto simp: persistBlockChildObjects_def split: option.splits)
  then show ?thesis
    using persistBlockDeposits_frame [OF a] persistBlockVoluntaryExits_frame [OF b]
      persistBlockSlashings_frame [OF c]
    by auto
qed

lemma persistBlockChildObjects_deposits:
  assumes "persistBlockChildObjects env isect block di orphaned ovr db = (err, di1, db1)"
    and a: "persistBlockDeposits env block di orphaned ovr db = (e1, d1, s1)"
  shows "di1 = d1 \<and> db_deposits db1 = db_deposits s1"
proof -
  obtain e2 s2 where b: "persistBlockVoluntaryExits env block orphaned ovr s1 = (e2, s2)"
    by (cases "persistBlockVoluntaryExits env block orphaned ovr s1") auto
  obtain e3 s3 where c: "persistBlockSlashings env isect block orphaned ovr s2 = (e3, s3)"
    by (cases "persistBlockSlashings env isect block orphaned ovr s2") auto
  have "di1 = d1" and "db1 = s1 \<or> db1 = s2 \<or> db1 = s3"
    using assms a b c
    by (auto simp: persistBlockChildObjects_def split: option.splits)
  then show ?thesis
    using persistBlockVoluntaryExits_frame [OF b] persistBlockSlashings_frame [OF c]
    by auto
qed

subsection \<open>Deposit indices\<close>

lemma depositRows_index:
  "depositRows block orphaned ovr idx deposits (Some i) = (rows, di1) \<Longrightarrow>
     di1 = Some (i + of_nat (length deposits)) \<and> length rows = length deposits
     \<and> map Deposit_Index rows = map (\<lambda>k. Some (i + of_nat k)) [0..<length deposits]"
proof (induction deposits arbitrary: idx i rows di1)
  case Nil
  then show ?case by simp
next
  case (Cons d deposits)
  obtain rows' di' where r: "depositRows block orphaned ovr (idx + 1) deposits (Some (i + 1)) = (rows', di')"
    by (cases "depositRows block orphaned ovr (idx + 1) deposits (Some (i + 1))") auto
  from Cons.IH [OF r] have ih: "di' = Some (i + 1 + of_nat (length deposits))"
    "length rows' = length deposits"
    "map Deposit_Index rows' = map (\<lambda>k. Some (i + 1 + of_nat k)) [0..<length deposits]"
    by simp_all
  from Cons.prems r have rows: "rows = \<lparr>Deposit_Index = Some i,
             Deposit_SlotNumber = Block_Slot block,
             Deposit_SlotIndex = of_nat idx,
             Deposit_SlotRoot = Block_Root block,
             Deposit_Orphaned = orphaned,
             Deposit_ForkId = (case ovr of None \<Rightarrow> Block_forkId block | Some forkId \<Rightarrow> forkId),
             Deposit_PublicKey = PublicKey d,
             Deposit_WithdrawalCredentials = WithdrawalCredentials d,
             Deposit_Amount = Amount d\<rparr> # rows'" and di1: "di1 = di'"
    by (simp_all add: Let_def)
  show ?case
    using ih by (simp add: rows di1 map_upt_Suc add.assoc del: upt_Suc)
qed

lemma depositRows_nil_index:
  "depositRows block orphaned ovr idx deposits None = (rows, di1) \<Longrightarrow> di1 = None"
  by (induction deposits arbitrary: idx rows di1) (auto simp: Let_def split: prod.splits)

lemma persistBlockDeposits_index:
  assumes "persistBlockDeposits env block (Some i) orphaned ovr db = (err, di1, db1)"
    and "\<And>rows. \<not> failInsertDeposits env rows"
  shows "\<exists>rows. db_deposits db1 = db_deposits db @ rows
      \<and> di1 = Some (i + of_nat (length rows))
      \<and> map Deposit_Index rows = map (\<lambda>k. Some (i + of_nat k)) [0..<length rows]"
proof -
  obtain built d1 where b: "buildDbDeposits block (Some i) orphaned ovr = (built, d1)"
    by (cases "buildDbDeposits block (Some i) orphaned ovr") auto
  have bi: "d1 = Some (i + of_nat (length built))
      \<and> map Deposit_Index built = map (\<lambda>k. Some (i + of_nat k)) [0..<length built]"
    using b depositRows_index [of block orphaned ovr 0 _ i built d1]
    by (auto simp: buildDbDeposits_def split: option.splits)
  let ?rows = "if orphaned then map (\<lambda>d. d\<lparr>Deposit_Orphaned := True\<rparr>) built else built"
  have ri: "length ?rows = length built" "map Deposit_Index ?rows = map Deposit_Index built"
    by (simp_all add: comp_def)
  have "db_deposits db1 = db_deposits db @ ?rows \<and> di1 = d1"
    using assms b
    by (auto simp: persistBlockDeposits_def InsertDeposits_def Let_def split: if_splits)
  then show ?thesis using bi ri by (intro exI [of _ ?rows]) simp
qed

lemma persistBlockData_index:
  assumes "persistBlockData env isect block es (Some i) orphaned ovr db = (err, di1, db1)"
    and nf: "\<And>rows. \<not> failInsertDeposits env rows"
  shows "\<exists>rows. db_deposits db1 = db_deposits db @ rows
      \<and> di1 = Some (i + of_nat (length rows))
      \<and> map Deposit_Index rows = map (\<lambda>k. Some (i + of_nat k)) [0..<length rows]"
proof (cases "buildDbBlock block es ovr")
  case None
  then have "db1 = db" "di1 = Some i" using assms(1) by (simp_all add: persistBlockData_def)
  then show ?thesis by (intro exI [of _ "[]"]) simp
next
  case (Some built)
  let ?row = "if orphaned then built\<lparr>Slot_Status := Orphaned\<rparr> else built"
  show ?thesis
  proof (cases "InsertSlot env ?row db")
    case (Inl e)
    then have "db1 = db" "di1 = Some i"
      using assms(1) Some by (simp_all add: persistBlockData_def Let_def)
    then show ?thesis by (intro exI [of _ "[]"]) simp
  next
    case (Inr s0)
    then have s0: "db_deposits s0 = db_deposits db"
      by (auto simp: InsertSlot_def split: if_splits)
    have co: "persistBlockChildObjects env isect block (Some i) orphaned ovr s0 = (err, di1, db1)"
      using assms(1) Some Inr by (simp add: persistBlockData_def Let_def)
    obtain e1 d1 s1 where a: "persistBlockDeposits env block (Some i) orphaned ovr s0 = (e1, d1, s1)"
      by (cases "persistBlockDeposits env block (Some i) orphaned ovr s0") auto
    from persistBlockChildObjects_deposits [OF co a] persistBlockDeposits_index [OF a nf] s0
    show ?thesis by simp
  qed
qed

subsection \<open>Invariants of the two loops\<close>

lemma aggregateTurns_invariant:
  assumes "P blockIdx depositIndex dbEpoch st"
    and "\<And>slot b d e s b1 d1 e1 s1. P b d e s \<Longrightarrow>
           aggregateStep blockFn blocks slot b d e s = (b1, d1, e1, s1) \<Longrightarrow> P b1 d1 e1 s1"
    and "aggregateTurns blockFn blocks n slot blockIdx depositIndex dbEpoch st = (b', d', e', s')"
  shows "P b' d' e' s'"
  using assms(1,3)
proof (induction n arbitrary: slot blockIdx depositIndex dbEpoch st)
  case 0
  then show ?case by simp
next
  case (Suc n)
  obtain b1 d1 e1 s1 where
    step: "aggregateStep blockFn blocks slot blockIdx depositIndex dbEpoch st = (b1, d1, e1, s1)"
    by (cases "aggregateStep blockFn blocks slot blockIdx depositIndex dbEpoch st") auto
  have "P b1 d1 e1 s1" by (rule assms(2) [OF Suc.prems(1) step])
  moreover have "aggregateTurns blockFn blocks n (slot + 1) b1 d1 e1 s1 = (b', d', e', s')"
    using Suc.prems(2) step by simp
  ultimately show ?case by (rule Suc.IH)
qed

lemma aggregateBody_BlockCount: "Epoch_BlockCount (aggregateBody body e) = Epoch_BlockCount e"
  by (simp add: aggregateBody_def)

lemma aggregateBody_Epoch: "Epoch_Epoch (aggregateBody body e) = Epoch_Epoch e"
  by (simp add: aggregateBody_def)

lemma aggregateBody_AttestationCount:
  "Epoch_AttestationCount (aggregateBody body e)
     = Epoch_AttestationCount e + len64 (orNil (Body_Attestations body))"
  by (simp add: aggregateBody_def)

lemma aggregateTurns_BlockCount:
  "aggregateTurns blockFn blocks n slot blockIdx depositIndex dbEpoch st = (b', d', e', s') \<Longrightarrow>
     Epoch_BlockCount e' = Epoch_BlockCount dbEpoch + matchedSlots blocks n slot blockIdx
     \<and> b' = blockIdx + matchedSlots blocks n slot blockIdx
     \<and> Epoch_Epoch e' = Epoch_Epoch dbEpoch"
proof (induction n arbitrary: slot blockIdx depositIndex dbEpoch st)
  case 0
  then show ?case by simp
next
  case (Suc n)
  obtain b1 d1 e1 s1 where
    step: "aggregateStep blockFn blocks slot blockIdx depositIndex dbEpoch st = (b1, d1, e1, s1)"
    by (cases "aggregateStep blockFn blocks slot blockIdx depositIndex dbEpoch st") auto
  have rest: "aggregateTurns blockFn blocks n (slot + 1) b1 d1 e1 s1 = (b', d', e', s')"
    using Suc.prems step by simp
  have s: "b1 = (if blockAt blocks blockIdx slot then blockIdx + 1 else blockIdx)
      \<and> Epoch_BlockCount e1
          = (if blockAt blocks blockIdx slot then Epoch_BlockCount dbEpoch + 1 else Epoch_BlockCount dbEpoch)
      \<and> Epoch_Epoch e1 = Epoch_Epoch dbEpoch"
    using step
    by (auto simp: aggregateStep_def Let_def aggregateBody_BlockCount aggregateBody_Epoch
        split: option.splits prod.splits if_splits)
  show ?case using Suc.IH [OF rest] s by simp
qed

lemma matchedSlots_le: "matchedSlots blocks n slot blockIdx \<le> n"
  by (induction n arbitrary: slot blockIdx) (simp_all add: le_SucI)

lemma missedSlotStep_frame:
  "missedSlotStep env vals blocks firstSlot slot blockIdx db = Inr (b1, db1) \<Longrightarrow>
     db_slots db1 = db_slots db \<and> db_epochs db1 = db_epochs db
     \<and> db_deposits db1 = db_deposits db"
  by (auto simp: missedSlotStep_def InsertMissingSlot_def split: if_splits sum.splits)

lemma missedTurns_frame:
  "missedTurns env vals blocks firstSlot n slot blockIdx db = (None, db') \<Longrightarrow>
     db_slots db' = db_slots db \<and> db_epochs db' = db_epochs db
     \<and> db_deposits db' = db_deposits db"
proof (induction n arbitrary: slot blockIdx db)
  case 0
  then show ?case by simp
next
  case (Suc n)
  then obtain b1 db1 where
    step: "missedSlotStep env vals blocks firstSlot slot blockIdx db = Inr (b1, db1)"
    and rest: "missedTurns env vals blocks firstSlot n (slot + 1) b1 db1 = (None, db')"
    by (auto split: sum.splits)
  show ?case using Suc.IH [OF rest] missedSlotStep_frame [OF step] by simp
qed

lemma missedTurns_count:
  "missedTurns env vals blocks firstSlot n slot blockIdx db = (None, db') \<Longrightarrow>
     length (db_missing_slots db') + matchedSlots blocks n slot blockIdx
       = length (db_missing_slots db) + n"
proof (induction n arbitrary: slot blockIdx db)
  case 0
  then show ?case by simp
next
  case (Suc n)
  then obtain b1 db1 where
    step: "missedSlotStep env vals blocks firstSlot slot blockIdx db = Inr (b1, db1)"
    and rest: "missedTurns env vals blocks firstSlot n (slot + 1) b1 db1 = (None, db')"
    by (auto split: sum.splits)
  have s: "b1 = (if blockAt blocks blockIdx slot then blockIdx + 1 else blockIdx)
      \<and> length (db_missing_slots db1)
          = (if blockAt blocks blockIdx slot then length (db_missing_slots db)
             else length (db_missing_slots db) + 1)"
    using step
    by (auto simp: missedSlotStep_def InsertMissingSlot_def split: if_splits sum.splits)
  show ?case using Suc.IH [OF rest] s by (simp split: if_splits)
qed

subsection \<open>The callback of \<open>persistEpochData\<close>\<close>

lemma persistBlockData_frame:
  assumes "persistBlockData env isect block es di orphaned ovr db = (err, di1, db1)"
  shows "db_missing_slots db1 = db_missing_slots db \<and> db_epochs db1 = db_epochs db"
proof (cases "buildDbBlock block es ovr")
  case None
  then show ?thesis using assms by (simp add: persistBlockData_def)
next
  case (Some built)
  let ?row = "if orphaned then built\<lparr>Slot_Status := Orphaned\<rparr> else built"
  show ?thesis
  proof (cases "InsertSlot env ?row db")
    case (Inl e)
    then show ?thesis using assms Some by (simp add: persistBlockData_def Let_def)
  next
    case (Inr s0)
    then have s0: "db_missing_slots s0 = db_missing_slots db" "db_epochs s0 = db_epochs db"
      by (auto simp: InsertSlot_def split: if_splits)
    have co: "persistBlockChildObjects env isect block di orphaned ovr s0 = (err, di1, db1)"
      using assms Some Inr by (simp add: persistBlockData_def Let_def)
    show ?thesis using persistBlockChildObjects_frame [OF co] s0 by simp
  qed
qed

lemma persistBlockData_slots:
  assumes "persistBlockData env isect block es di orphaned ovr db = (err, di1, db1)"
    and "Block_block block = Some body"
    and "\<And>row. \<not> failInsertSlot env row"
  shows "\<exists>row. db_slots db1 = db_slots db @ [row]
      \<and> Slot_AttestationCount row = len64 (orNil (Body_Attestations body))
      \<and> Slot_Status row = (if orphaned then Orphaned else Canonical)
      \<and> Slot_ForkId row = (case ovr of None \<Rightarrow> Block_forkId block | Some f \<Rightarrow> f)
      \<and> Slot_Root row = Block_Root block"
proof -
  obtain built where b: "buildDbBlock block es ovr = Some built"
    and bf: "Slot_AttestationCount built = len64 (orNil (Body_Attestations body))"
      "Slot_Status built = Canonical"
      "Slot_ForkId built = (case ovr of None \<Rightarrow> Block_forkId block | Some f \<Rightarrow> f)"
      "Slot_Root built = Block_Root block"
    using assms(2) by (auto simp: buildDbBlock_def Let_def split: option.splits)
  let ?row = "if orphaned then built\<lparr>Slot_Status := Orphaned\<rparr> else built"
  let ?s0 = "db\<lparr>db_slots := db_slots db @ [?row]\<rparr>"
  have ins: "InsertSlot env ?row db = Inr ?s0" using assms(3) by (simp add: InsertSlot_def)
  have co: "persistBlockChildObjects env isect block di orphaned ovr ?s0 = (err, di1, db1)"
    using assms(1) b ins by (simp add: persistBlockData_def Let_def)
  have "db_slots db1 = db_slots db @ [?row]"
    using persistBlockChildObjects_frame [OF co] by simp
  then show ?thesis using bf by (intro exI [of _ ?row]) simp
qed

lemma persistCanonicalBlock_frame:
  "persistCanonicalBlock env isect es block di db = (di1, db1) \<Longrightarrow>
     db_missing_slots db1 = db_missing_slots db \<and> db_epochs db1 = db_epochs db"
  by (auto simp: persistCanonicalBlock_def split: prod.splits option.splits
      dest: persistBlockData_frame)

lemma persistCanonicalBlock_slots:
  assumes "persistCanonicalBlock env isect es block di db = (di1, db1)"
    and "Block_block block = Some body"
    and "\<And>row. \<not> failInsertSlot env row"
  shows "\<exists>row. db_slots db1 = db_slots db @ [row]
      \<and> Slot_AttestationCount row = len64 (orNil (Body_Attestations body))
      \<and> Slot_Status row = Canonical \<and> Slot_ForkId row = 0"
proof -
  obtain err d2 s2 where p: "persistBlockData env isect block es di False (Some 0) db = (err, d2, s2)"
    by (cases "persistBlockData env isect block es di False (Some 0) db") auto
  have "db_slots db1 = db_slots s2"
    using assms(1) p by (auto simp: persistCanonicalBlock_def split: option.splits)
  then show ?thesis using persistBlockData_slots [OF p assms(2,3)] by auto
qed

lemma persistCanonicalBlock_index:
  assumes "persistCanonicalBlock env isect es block (Some i) db = (di1, db1)"
    and "\<And>rows. \<not> failInsertDeposits env rows"
  shows "\<exists>rows. db_deposits db1 = db_deposits db @ rows
      \<and> di1 = Some (i + of_nat (length rows))
      \<and> map Deposit_Index rows = map (\<lambda>k. Some (i + of_nat k)) [0..<length rows]"
proof -
  obtain err d2 s2 where p: "persistBlockData env isect block es (Some i) False (Some 0) db = (err, d2, s2)"
    by (cases "persistBlockData env isect block es (Some i) False (Some 0) db") auto
  have "db_deposits db1 = db_deposits s2" "di1 = d2"
    using assms(1) p by (auto simp: persistCanonicalBlock_def split: option.splits)
  then show ?thesis using persistBlockData_index [OF p assms(2)] by simp
qed

lemma unat_succ_lt:
  fixes s :: u64
  assumes "unat s + Suc n < 2 ^ 64"
  shows "unat (s + 1) = Suc (unat s)"
proof -
  have "unat s + unat (1 :: u64) < 2 ^ LENGTH(64)" using assms by simp
  then have "unat (s + 1) = unat s + unat (1 :: u64)" by (simp only: unat_add_lem)
  then show ?thesis by simp
qed

lemma slotsFrom_above:
  "t \<in> set (slotsFrom s n) \<Longrightarrow> unat s + n < 2 ^ 64 \<Longrightarrow> unat s \<le> unat t \<and> unat t < unat s + n"
proof (induction n arbitrary: s)
  case 0
  then show ?case by simp
next
  case (Suc n)
  have nx: "unat (s + 1) = Suc (unat s)" using Suc.prems(2) by (rule unat_succ_lt)
  show ?case
  proof (cases "t = s")
    case True
    then show ?thesis by simp
  next
    case False
    then have "t \<in> set (slotsFrom (s + 1) n)" using Suc.prems(1) by simp
    moreover have "unat (s + 1) + n < 2 ^ 64" using nx Suc.prems(2) by simp
    ultimately have "unat (s + 1) \<le> unat t \<and> unat t < unat (s + 1) + n" by (rule Suc.IH)
    then show ?thesis using nx by simp
  qed
qed

lemma slotsFrom_distinct: "unat s + n < 2 ^ 64 \<Longrightarrow> distinct (slotsFrom s n)"
proof (induction n arbitrary: s)
  case 0
  then show ?case by simp
next
  case (Suc n)
  have nx: "unat (s + 1) = Suc (unat s)" using Suc.prems by (rule unat_succ_lt)
  then have b: "unat (s + 1) + n < 2 ^ 64" using Suc.prems by simp
  have "s \<notin> set (slotsFrom (s + 1) n)"
    using slotsFrom_above [OF _ b, of s] nx by auto
  then show ?case using Suc.IH [OF b] by simp
qed

lemma slotsFrom_length: "length (slotsFrom s n) = n"
  by (induction n arbitrary: s) simp_all

lemma nat_sint_unat:
  fixes x :: u64
  assumes "0 \<le> sint x"
  shows "nat (sint x) = unat x"
proof -
  have "sint x < 2 ^ 64" using sint_lt [of x] by simp
  then have "take_bit 64 (sint x) = sint x" using assms by (simp add: take_bit_int_eq_self)
  then have "uint x = sint x" using uint_sint [of x] by simp
  then show ?thesis by (simp add: unat_eq_nat_uint)
qed

lemma missedSlotProposer_Some:
  assumes "missedSlotProposer (Some v) firstSlot slot = Inr p"
  shows "p = ProposerDuties v ! unat (slot - firstSlot) \<and> hasDuty v firstSlot slot"
  using assms
  by (auto simp: missedSlotProposer_def Let_def hasDuty_def nat_sint_unat split: if_splits)

lemma missedTurns_rows:
  assumes "sorted_wrt (\<lambda>a b. Block_Slot a < Block_Slot b) (drop b blocks)"
    and "\<forall>x \<in> set (drop b blocks). s \<le> Block_Slot x"
    and "unat s + n < 2 ^ 64"
    and "missedTurns env (Some v) blocks firstSlot n s b db = (None, db')"
  shows "db_missing_slots db'
           = db_missing_slots db
             @ map (missingRow v firstSlot)
                 (filter (\<lambda>t. t \<notin> Block_Slot ` set (drop b blocks)) (slotsFrom s n))
       \<and> list_all (hasDuty v firstSlot)
           (filter (\<lambda>t. t \<notin> Block_Slot ` set (drop b blocks)) (slotsFrom s n))"
  using assms
proof (induction n arbitrary: s b db)
  case 0
  then show ?case by simp
next
  case (Suc n)
  let ?rest = "drop b blocks"
  have nx: "unat (s + 1) = Suc (unat s)" using Suc.prems(3) by (rule unat_succ_lt)
  then have bound: "unat (s + 1) + n < 2 ^ 64" using Suc.prems(3) by simp
  have later: "\<And>t. t \<in> set (slotsFrom (s + 1) n) \<Longrightarrow> t \<noteq> s"
    using slotsFrom_above [OF _ bound] nx by fastforce
  from Suc.prems(4) obtain b1 db1 where
    step: "missedSlotStep env (Some v) blocks firstSlot s b db = Inr (b1, db1)"
    and rest: "missedTurns env (Some v) blocks firstSlot n (s + 1) b1 db1 = (None, db')"
    by (auto split: sum.splits)
  show ?case
  proof (cases "blockAt blocks b s")
    case True
    then have bl: "b < length blocks" and sl: "Block_Slot (blocks ! b) = s"
      by (simp_all add: blockAt_def)
    have dr: "?rest = blocks ! b # drop (Suc b) blocks" using bl by (simp add: Cons_nth_drop_Suc)
    have b1: "b1 = Suc b" "db1 = db" using step True by (simp_all add: missedSlotStep_def)
    have srt: "sorted_wrt (\<lambda>a b. Block_Slot a < Block_Slot b) (drop (Suc b) blocks)"
      and gt: "\<forall>x \<in> set (drop (Suc b) blocks). s < Block_Slot x"
      using Suc.prems(1) dr sl by auto
    have ge: "\<forall>x \<in> set (drop (Suc b) blocks). s + 1 \<le> Block_Slot x"
      using gt by (auto intro: inc_le)
    have flt: "filter (\<lambda>t. t \<notin> Block_Slot ` set ?rest) (slotsFrom s (Suc n))
        = filter (\<lambda>t. t \<notin> Block_Slot ` set (drop (Suc b) blocks)) (slotsFrom (s + 1) n)"
    proof -
      have "s \<in> Block_Slot ` set ?rest" using dr sl by (metis image_eqI list.set_intros(1))
      moreover have "filter (\<lambda>t. t \<notin> Block_Slot ` set ?rest) (slotsFrom (s + 1) n)
          = filter (\<lambda>t. t \<notin> Block_Slot ` set (drop (Suc b) blocks)) (slotsFrom (s + 1) n)"
        by (rule filter_cong [OF refl]) (use dr sl later in auto)
      ultimately show ?thesis by simp
    qed
    show ?thesis
      using Suc.IH [OF srt ge bound] rest b1 unfolding flt by simp
  next
    case False
    obtain p where p: "missedSlotProposer (Some v) firstSlot s = Inr p"
      and db1: "db1 = db\<lparr>db_missing_slots := db_missing_slots db
          @ [\<lparr>SlotHeader_Slot = s, SlotHeader_Proposer = p, SlotHeader_Status = Missing\<rparr>]\<rparr>"
      and b1: "b1 = b"
      using step False
      by (auto simp: missedSlotStep_def InsertMissingSlot_def split: sum.splits if_splits)
    have row: "\<lparr>SlotHeader_Slot = s, SlotHeader_Proposer = p, SlotHeader_Status = Missing\<rparr>
        = missingRow v firstSlot s" and duty: "hasDuty v firstSlot s"
      using missedSlotProposer_Some [OF p] by (simp_all add: missingRow_def)
    have notin: "s \<notin> Block_Slot ` set ?rest"
    proof (cases "b < length blocks")
      case True
      then have dr: "?rest = blocks ! b # drop (Suc b) blocks" by (simp add: Cons_nth_drop_Suc)
      have hd: "Block_Slot (blocks ! b) \<noteq> s" using False True by (simp add: blockAt_def)
      have "s \<le> Block_Slot (blocks ! b)" using Suc.prems(2) dr by (metis list.set_intros(1))
      then have lt: "s < Block_Slot (blocks ! b)" using hd by (simp add: word_le_less_eq)
      have "\<forall>x \<in> set (drop (Suc b) blocks). Block_Slot (blocks ! b) < Block_Slot x"
        using Suc.prems(1) dr by auto
      then have "\<forall>x \<in> set ?rest. s < Block_Slot x" using lt dr by (metis less_trans set_ConsD)
      then show ?thesis by auto
    next
      case False
      then show ?thesis by simp
    qed
    have ge: "\<forall>x \<in> set ?rest. s + 1 \<le> Block_Slot x"
    proof
      fix x assume x: "x \<in> set ?rest"
      then have "s \<le> Block_Slot x" using Suc.prems(2) by blast
      moreover have "Block_Slot x \<noteq> s" using notin x by auto
      ultimately have "s < Block_Slot x" by (simp add: word_le_less_eq)
      then show "s + 1 \<le> Block_Slot x" by (rule inc_le)
    qed
    have flt: "filter (\<lambda>t. t \<notin> Block_Slot ` set ?rest) (slotsFrom s (Suc n))
        = s # filter (\<lambda>t. t \<notin> Block_Slot ` set ?rest) (slotsFrom (s + 1) n)"
      using notin by simp
    show ?thesis
      using Suc.IH [OF Suc.prems(1) ge bound] rest b1 db1 row duty unfolding flt by simp
  qed
qed

lemma epochOfSlot_bounds:
  assumes "0 < SlotsPerEpoch cs" and "EpochOfSlot cs slot = epoch"
  shows "EpochStartSlot cs epoch \<le> slot"
    and "unat slot < unat (EpochStartSlot cs epoch) + unat (SlotsPerEpoch cs)"
proof -
  let ?P = "unat (SlotsPerEpoch cs)"
  have P: "0 < ?P" using assms(1) by (simp add: word_less_nat_alt)
  have q: "unat epoch = unat slot div ?P"
    using assms(2) by (auto simp: EpochOfSlot_def unat_div)
  have le: "unat epoch * ?P \<le> unat slot" using q by simp
  moreover have "unat slot < 2 ^ 64" using unsigned_less [of slot] by simp
  ultimately have "unat epoch * ?P < 2 ^ LENGTH(64)" by simp
  then have m: "unat (EpochStartSlot cs epoch) = unat epoch * ?P"
    unfolding EpochStartSlot_def by (simp only: unat_mult_lem)
  show "EpochStartSlot cs epoch \<le> slot" using le m by (simp add: word_le_nat_alt)
  have "unat slot < ?P + (unat slot div ?P) * ?P" using P by (rule dividend_less_div_times)
  then show "unat slot < unat (EpochStartSlot cs epoch) + unat (SlotsPerEpoch cs)"
    using m q by simp
qed

lemma matchedSlots_sorted:
  assumes "sorted_wrt (\<lambda>a b. Block_Slot a < Block_Slot b) (drop b blocks)"
    and "\<forall>x \<in> set (drop b blocks). s \<le> Block_Slot x \<and> unat (Block_Slot x) < unat s + n"
    and "unat s + n < 2 ^ 64"
  shows "matchedSlots blocks n s b = length blocks - b"
  using assms
proof (induction n arbitrary: s b)
  case 0
  have "drop b blocks = []"
  proof (cases "drop b blocks")
    case (Cons x xs)
    then have "s \<le> Block_Slot x \<and> unat (Block_Slot x) < unat s + 0" using "0.prems"(2) by simp
    then show ?thesis by (simp add: word_le_nat_alt)
  qed simp
  then show ?case by simp
next
  case (Suc n)
  let ?rest = "drop b blocks"
  have nx: "unat (s + 1) = Suc (unat s)" using Suc.prems(3) by (rule unat_succ_lt)
  then have bound: "unat (s + 1) + n < 2 ^ 64" using Suc.prems(3) by simp
  show ?case
  proof (cases "blockAt blocks b s")
    case True
    then have bl: "b < length blocks" and sl: "Block_Slot (blocks ! b) = s"
      by (simp_all add: blockAt_def)
    have dr: "?rest = blocks ! b # drop (Suc b) blocks" using bl by (simp add: Cons_nth_drop_Suc)
    have srt: "sorted_wrt (\<lambda>a b. Block_Slot a < Block_Slot b) (drop (Suc b) blocks)"
      and gt: "\<forall>x \<in> set (drop (Suc b) blocks). s < Block_Slot x"
      using Suc.prems(1) dr sl by auto
    have rng: "\<forall>x \<in> set (drop (Suc b) blocks).
        s + 1 \<le> Block_Slot x \<and> unat (Block_Slot x) < unat (s + 1) + n"
    proof
      fix x assume x: "x \<in> set (drop (Suc b) blocks)"
      then have "x \<in> set ?rest" using dr by simp
      then have "unat (Block_Slot x) < unat s + Suc n" using Suc.prems(2) by blast
      moreover have "s + 1 \<le> Block_Slot x" using gt x by (auto intro: inc_le)
      ultimately show "s + 1 \<le> Block_Slot x \<and> unat (Block_Slot x) < unat (s + 1) + n"
        using nx by simp
    qed
    show ?thesis using Suc.IH [OF srt rng bound] True bl by simp
  next
    case False
    have rng: "\<forall>x \<in> set ?rest. s + 1 \<le> Block_Slot x \<and> unat (Block_Slot x) < unat (s + 1) + n"
    proof
      fix x assume x: "x \<in> set ?rest"
      then have xs: "s \<le> Block_Slot x" "unat (Block_Slot x) < unat s + Suc n"
        using Suc.prems(2) by blast+
      have "Block_Slot x \<noteq> s"
      proof
        assume eq: "Block_Slot x = s"
        have bl: "b < length blocks" using x by (cases "b < length blocks") auto
        then have dr: "?rest = blocks ! b # drop (Suc b) blocks" by (simp add: Cons_nth_drop_Suc)
        have hd: "Block_Slot (blocks ! b) \<noteq> s" using False bl by (simp add: blockAt_def)
        then have "x \<in> set (drop (Suc b) blocks)" using x dr eq by auto
        then have "Block_Slot (blocks ! b) < s" using Suc.prems(1) dr eq by auto
        moreover have "s \<le> Block_Slot (blocks ! b)" using Suc.prems(2) dr by (metis list.set_intros(1))
        ultimately show False by simp
      qed
      then have "s < Block_Slot x" using xs(1) by (simp add: word_le_less_eq)
      then have "s + 1 \<le> Block_Slot x" by (rule inc_le)
      then show "s + 1 \<le> Block_Slot x \<and> unat (Block_Slot x) < unat (s + 1) + n"
        using xs(2) nx by simp
    qed
    show ?thesis using Suc.IH [OF Suc.prems(1) rng bound] False by simp
  qed
qed

subsection \<open>\<open>persistEpochData\<close> in parts\<close>

lemma persistEpochData_parts:
  assumes "unat (EpochStartSlot cs epoch) + unat (SlotsPerEpoch cs) < 2 ^ 64"
    and "0 < SlotsPerEpoch cs"
    and "persistEpochData env isect cs epoch blocks epochStats epochVotes db = Some (None, db')"
  obtains b1 d1 dbEpoch db1 db2 where
    "aggregateTurns (Some (persistCanonicalBlock env isect epochStats)) blocks
        (unat (SlotsPerEpoch cs)) (EpochStartSlot cs epoch) 0
        (map_option FirstDepositIndex (GetValues epochStats))
        (initDbEpoch epoch epochVotes (GetValues epochStats)) db = (b1, d1, dbEpoch, db1)"
    and "missedTurns env (GetValues epochStats) blocks (EpochStartSlot cs epoch)
        (unat (SlotsPerEpoch cs)) (EpochStartSlot cs epoch) 0 db1 = (None, db2)"
    and "db' = db2\<lparr>db_epochs := db_epochs db2 @ [dbEpoch]\<rparr>"
proof -
  let ?t = "aggregateTurns (Some (persistCanonicalBlock env isect epochStats)) blocks
        (unat (SlotsPerEpoch cs)) (EpochStartSlot cs epoch) 0
        (map_option FirstDepositIndex (GetValues epochStats))
        (initDbEpoch epoch epochVotes (GetValues epochStats)) db"
  obtain b1 d1 dbEpoch db1 where t: "?t = (b1, d1, dbEpoch, db1)" by (cases ?t) auto
  have bd: "buildDbEpoch cs epoch blocks epochStats epochVotes
      (Some (persistCanonicalBlock env isect epochStats)) db = Some (dbEpoch, db1)"
    by (simp add: buildDbEpoch_turns [OF assms(1,2)] t)
  let ?m = "missedTurns env (GetValues epochStats) blocks (EpochStartSlot cs epoch)
        (unat (SlotsPerEpoch cs)) (EpochStartSlot cs epoch) 0 db1"
  obtain e2 db2 where m: "?m = (e2, db2)" by (cases ?m) auto
  have pm: "persistMissedSlots env cs epoch blocks epochStats db1 = (e2, db2)"
    by (simp add: persistMissedSlots_turns [OF assms(1,2)] m)
  have e2: "e2 = None" and db': "db' = db2\<lparr>db_epochs := db_epochs db2 @ [dbEpoch]\<rparr>"
    using assms(3) bd pm
    by (auto simp: persistEpochData_def InsertEpoch_def split: option.splits sum.splits if_splits)
  show ?thesis using that [OF t] m e2 db' by simp
qed

lemma aggregateTurns_frame:
  assumes "aggregateTurns (Some (persistCanonicalBlock env isect es)) blocks n slot b d e db
             = (b', d', e', db')"
  shows "db_missing_slots db' = db_missing_slots db \<and> db_epochs db' = db_epochs db"
proof (rule aggregateTurns_invariant
    [where P = "\<lambda>b d e s. db_missing_slots s = db_missing_slots db \<and> db_epochs s = db_epochs db",
      OF _ _ assms])
  show "db_missing_slots db = db_missing_slots db \<and> db_epochs db = db_epochs db" by simp
next
  fix slot b d e s b1 d1 e1 s1
  assume inv: "db_missing_slots s = db_missing_slots db \<and> db_epochs s = db_epochs db"
    and step: "aggregateStep (Some (persistCanonicalBlock env isect es)) blocks slot b d e s
        = (b1, d1, e1, s1)"
  from step have "s1 = s \<or> (\<exists>di. persistCanonicalBlock env isect es (blocks ! b) d s = (di, s1))"
    by (auto simp: aggregateStep_def Let_def split: if_splits option.splits prod.splits)
  then show "db_missing_slots s1 = db_missing_slots db \<and> db_epochs s1 = db_epochs db"
    using inv persistCanonicalBlock_frame by metis
qed

section \<open>DB writer: epoch theorems\<close>

text \<open>
  C1 (as amended). Let the epoch's stats values be available, the block list be strictly
  ascending by slot with only slots of the epoch, and \<open>persistEpochData\<close> return without
  error (the epoch's slot range not wrapping around \<open>2^64\<close>). Then the \<open>Missing\<close> rows it
  inserts are, in slot order, exactly one row for each slot of the epoch that has no block in
  the list, with the proposer \<open>ProposerDuties[slot - firstSlot]\<close> (an index within the
  array); a slot with a block gets no \<open>Missing\<close> row.
\<close>

theorem C1_missing_rows_for_slots_without_block:
  assumes "unat (EpochStartSlot cs epoch) + unat (SlotsPerEpoch cs) < 2 ^ 64"
    and "0 < SlotsPerEpoch cs"
    and "GetValues epochStats = Some v"
    and "sorted_wrt (\<lambda>a b. Block_Slot a < Block_Slot b) blocks"
    and "\<forall>b \<in> set blocks. EpochOfSlot cs (Block_Slot b) = epoch"
    and "persistEpochData env intersectSimple cs epoch blocks epochStats epochVotes db = Some (None, db')"
  shows "db_missing_slots db'
           = db_missing_slots db
             @ map (missingRow v (EpochStartSlot cs epoch))
                 (filter (\<lambda>slot. slot \<notin> Block_Slot ` set blocks) (epochSlots cs epoch))
       \<and> distinct (epochSlots cs epoch)
       \<and> list_all (hasDuty v (EpochStartSlot cs epoch))
           (filter (\<lambda>slot. slot \<notin> Block_Slot ` set blocks) (epochSlots cs epoch))"
proof -
  let ?first = "EpochStartSlot cs epoch"
  let ?n = "unat (SlotsPerEpoch cs)"
  from persistEpochData_parts [OF assms(1,2,6)] obtain b1 d1 dbEpoch db1 db2 where
    t: "aggregateTurns (Some (persistCanonicalBlock env intersectSimple epochStats)) blocks ?n ?first 0
        (map_option FirstDepositIndex (GetValues epochStats))
        (initDbEpoch epoch epochVotes (GetValues epochStats)) db = (b1, d1, dbEpoch, db1)"
    and m: "missedTurns env (GetValues epochStats) blocks ?first ?n ?first 0 db1 = (None, db2)"
    and db': "db' = db2\<lparr>db_epochs := db_epochs db2 @ [dbEpoch]\<rparr>"
    by blast
  have f: "db_missing_slots db1 = db_missing_slots db" using aggregateTurns_frame [OF t] by simp
  have srt: "sorted_wrt (\<lambda>a b. Block_Slot a < Block_Slot b) (drop 0 blocks)" using assms(4) by simp
  have ge: "\<forall>x \<in> set (drop 0 blocks). ?first \<le> Block_Slot x"
    using assms(5) epochOfSlot_bounds(1) [OF assms(2)] by auto
  have m': "missedTurns env (Some v) blocks ?first ?n ?first 0 db1 = (None, db2)"
    using m assms(3) by simp
  from missedTurns_rows [OF srt ge assms(1) m']
  have "db_missing_slots db2
           = db_missing_slots db1
             @ map (missingRow v ?first)
                 (filter (\<lambda>slot. slot \<notin> Block_Slot ` set blocks) (slotsFrom ?first ?n))"
    and "list_all (hasDuty v ?first)
           (filter (\<lambda>slot. slot \<notin> Block_Slot ` set blocks) (slotsFrom ?first ?n))"
    by simp_all
  moreover have "distinct (epochSlots cs epoch)"
    unfolding epochSlots_def by (rule slotsFrom_distinct [OF assms(1)])
  ultimately show ?thesis using f db' by (simp add: epochSlots_def)
qed

text \<open>
  C2. For a block list strictly ascending by slot with only slots of the epoch, when
  \<open>persistEpochData\<close> returns without error: it inserts one \<open>Epoch\<close> row for the epoch, whose
  \<open>BlockCount\<close> is the number of blocks in the list, and \<open>BlockCount\<close> plus the number of
  \<open>Missing\<close> rows inserted equals \<open>SlotsPerEpoch\<close>.
\<close>

theorem C2_blocks_plus_missing_is_slots_per_epoch:
  assumes "unat (EpochStartSlot cs epoch) + unat (SlotsPerEpoch cs) < 2 ^ 64"
    and "0 < SlotsPerEpoch cs"
    and "sorted_wrt (\<lambda>a b. Block_Slot a < Block_Slot b) blocks"
    and "\<forall>b \<in> set blocks. EpochOfSlot cs (Block_Slot b) = epoch"
    and "persistEpochData env intersectSimple cs epoch blocks epochStats epochVotes db = Some (None, db')"
  shows "\<exists>dbEpoch. db_epochs db' = db_epochs db @ [dbEpoch]
       \<and> Epoch_Epoch dbEpoch = epoch
       \<and> Epoch_BlockCount dbEpoch = length blocks
       \<and> Epoch_BlockCount dbEpoch + (length (db_missing_slots db') - length (db_missing_slots db))
           = unat (SlotsPerEpoch cs)"
proof -
  let ?first = "EpochStartSlot cs epoch"
  let ?n = "unat (SlotsPerEpoch cs)"
  from persistEpochData_parts [OF assms(1,2,5)] obtain b1 d1 dbEpoch db1 db2 where
    t: "aggregateTurns (Some (persistCanonicalBlock env intersectSimple epochStats)) blocks ?n ?first 0
        (map_option FirstDepositIndex (GetValues epochStats))
        (initDbEpoch epoch epochVotes (GetValues epochStats)) db = (b1, d1, dbEpoch, db1)"
    and m: "missedTurns env (GetValues epochStats) blocks ?first ?n ?first 0 db1 = (None, db2)"
    and db': "db' = db2\<lparr>db_epochs := db_epochs db2 @ [dbEpoch]\<rparr>"
    by blast
  have f: "db_missing_slots db1 = db_missing_slots db" "db_epochs db1 = db_epochs db"
    using aggregateTurns_frame [OF t] by simp_all
  have f2: "db_epochs db2 = db_epochs db1" using missedTurns_frame [OF m] by simp
  have init: "Epoch_BlockCount (initDbEpoch epoch epochVotes (GetValues epochStats)) = 0"
    "Epoch_Epoch (initDbEpoch epoch epochVotes (GetValues epochStats)) = epoch"
    by (simp_all add: initDbEpoch_def Let_def split: option.splits)
  have bc: "Epoch_BlockCount dbEpoch = matchedSlots blocks ?n ?first 0"
    and ep: "Epoch_Epoch dbEpoch = epoch"
    using aggregateTurns_BlockCount [OF t] init by simp_all
  have cnt: "length (db_missing_slots db2) + matchedSlots blocks ?n ?first 0
      = length (db_missing_slots db) + ?n"
    using missedTurns_count [OF m] f by simp
  have srt: "sorted_wrt (\<lambda>a b. Block_Slot a < Block_Slot b) (drop 0 blocks)" using assms(3) by simp
  have rng: "\<forall>x \<in> set (drop 0 blocks). ?first \<le> Block_Slot x \<and> unat (Block_Slot x) < unat ?first + ?n"
    using assms(4) epochOfSlot_bounds [OF assms(2)] by auto
  have all: "matchedSlots blocks ?n ?first 0 = length blocks"
    using matchedSlots_sorted [OF srt rng assms(1)] by simp
  have "db_epochs db' = db_epochs db @ [dbEpoch]" using db' f f2 by simp
  moreover have "length (db_missing_slots db') = length (db_missing_slots db2)"
    using db' by simp
  then have "Epoch_BlockCount dbEpoch
      + (length (db_missing_slots db') - length (db_missing_slots db)) = ?n"
    using bc cnt matchedSlots_le [of blocks ?n ?first 0] by linarith
  ultimately show ?thesis using ep bc all by auto
qed

text \<open>
  C3 (as amended). When \<open>persistEpochData\<close> returns without error and no \<open>Slot\<close> insert
  fails, the \<open>Slot\<close> rows it has inserted are all canonical rows of fork 0, and the
  \<open>AttestationCount\<close> of the \<open>Epoch\<close> row it inserts equals the sum (in \<open>uint64\<close>) of their
  \<open>AttestationCount\<close>. Orphaned rows are written by other calls of \<open>persistBlockData\<close> and
  are not part of the aggregate.
\<close>

theorem C3_epoch_attestations_sum_canonical_rows:
  assumes "unat (EpochStartSlot cs epoch) + unat (SlotsPerEpoch cs) < 2 ^ 64"
    and "0 < SlotsPerEpoch cs"
    and "\<And>row. \<not> failInsertSlot env row"
    and "persistEpochData env intersectSimple cs epoch blocks epochStats epochVotes db = Some (None, db')"
  shows "\<exists>dbEpoch rows. db_epochs db' = db_epochs db @ [dbEpoch]
       \<and> db_slots db' = db_slots db @ rows
       \<and> (\<forall>r \<in> set rows. Slot_Status r = Canonical \<and> Slot_ForkId r = 0)
       \<and> Epoch_AttestationCount dbEpoch = sum_list (map Slot_AttestationCount rows)"
proof -
  let ?first = "EpochStartSlot cs epoch"
  let ?n = "unat (SlotsPerEpoch cs)"
  let ?fn = "persistCanonicalBlock env intersectSimple epochStats"
  from persistEpochData_parts [OF assms(1,2,4)] obtain b1 d1 dbEpoch db1 db2 where
    t: "aggregateTurns (Some ?fn) blocks ?n ?first 0
        (map_option FirstDepositIndex (GetValues epochStats))
        (initDbEpoch epoch epochVotes (GetValues epochStats)) db = (b1, d1, dbEpoch, db1)"
    and m: "missedTurns env (GetValues epochStats) blocks ?first ?n ?first 0 db1 = (None, db2)"
    and db': "db' = db2\<lparr>db_epochs := db_epochs db2 @ [dbEpoch]\<rparr>"
    by blast
  let ?P = "\<lambda>(b :: nat) (d :: u64 option) e s. \<exists>rows. db_slots s = db_slots db @ rows
       \<and> (\<forall>r \<in> set rows. Slot_Status r = Canonical \<and> Slot_ForkId r = 0)
       \<and> Epoch_AttestationCount e = sum_list (map Slot_AttestationCount rows)"
  have "?P b1 d1 dbEpoch db1"
  proof (rule aggregateTurns_invariant [where P = ?P, OF _ _ t])
    show "?P 0 (map_option FirstDepositIndex (GetValues epochStats))
        (initDbEpoch epoch epochVotes (GetValues epochStats)) db"
      by (simp add: initDbEpoch_def Let_def split: option.splits)
  next
    fix slot b d e s b1 d1 e1 s1
    assume inv: "?P b d e s"
      and step: "aggregateStep (Some ?fn) blocks slot b d e s = (b1, d1, e1, s1)"
    from inv obtain rows where rows: "db_slots s = db_slots db @ rows"
      "\<forall>r \<in> set rows. Slot_Status r = Canonical \<and> Slot_ForkId r = 0"
      "Epoch_AttestationCount e = sum_list (map Slot_AttestationCount rows)"
      by blast
    show "?P b1 d1 e1 s1"
    proof (cases "blockAt blocks b slot")
      case False
      then have "e1 = e" "s1 = s" using step by (simp_all add: aggregateStep_def)
      then show ?thesis using inv by simp
    next
      case True
      show ?thesis
      proof (cases "Block_block (blocks ! b)")
        case None
        then have "Epoch_AttestationCount e1 = Epoch_AttestationCount e" "s1 = s"
          using step True by (auto simp add: aggregateStep_def Let_def)
        then show ?thesis using inv by simp
      next
        case (Some body)
        obtain di sx where fn: "?fn (blocks ! b) d s = (di, sx)" by (cases "?fn (blocks ! b) d s") auto
        have e1: "Epoch_AttestationCount e1
            = Epoch_AttestationCount e + len64 (orNil (Body_Attestations body))" and s1: "s1 = sx"
          using step True Some fn
          by (auto simp add: aggregateStep_def Let_def aggregateBody_def)
        from persistCanonicalBlock_slots [OF fn Some assms(3)] obtain row where
          row: "db_slots sx = db_slots s @ [row]"
          "Slot_AttestationCount row = len64 (orNil (Body_Attestations body))"
          "Slot_Status row = Canonical \<and> Slot_ForkId row = 0"
          by blast
        show ?thesis
          using rows row e1 s1 by (intro exI [of _ "rows @ [row]"]) simp
      qed
    qed
  qed
  then obtain rows where rows: "db_slots db1 = db_slots db @ rows"
      "\<forall>r \<in> set rows. Slot_Status r = Canonical \<and> Slot_ForkId r = 0"
      "Epoch_AttestationCount dbEpoch = sum_list (map Slot_AttestationCount rows)"
    by blast
  have f: "db_epochs db1 = db_epochs db" using aggregateTurns_frame [OF t] by simp
  have f2: "db_epochs db2 = db_epochs db1" "db_slots db2 = db_slots db1"
    using missedTurns_frame [OF m] by simp_all
  have "db_epochs db' = db_epochs db @ [dbEpoch]" "db_slots db' = db_slots db @ rows"
    using db' f f2 rows(1) by simp_all
  then show ?thesis using rows(2,3) by blast
qed

lemma consecutive_append:
  fixes first :: u64
  assumes "map f rows = map (\<lambda>k. Some (first + of_nat k)) [0..<length rows]"
    and "map f extra = map (\<lambda>k. Some (first + of_nat (length rows) + of_nat k)) [0..<length extra]"
  shows "map f (rows @ extra) = map (\<lambda>k. Some (first + of_nat k)) [0..<length (rows @ extra)]"
proof -
  let ?g = "\<lambda>k. Some (first + of_nat k)"
  have "[0..<length rows + length extra]
      = [0..<length rows] @ [length rows..<length rows + length extra]"
    by (rule upt_add_eq_append) simp
  also have "[length rows..<length rows + length extra]
      = [length rows..<length extra + length rows]"
    by (simp only: add.commute)
  also have "\<dots> = map (\<lambda>k. k + length rows) [0..<length extra]"
    by (simp only: map_add_upt)
  finally have split: "[0..<length rows + length extra]
      = [0..<length rows] @ map (\<lambda>k. k + length rows) [0..<length extra]" .
  have shift: "(\<lambda>k. Some (first + of_nat (length rows) + of_nat k)) = (\<lambda>k. ?g (k + length rows))"
    by (simp add: fun_eq_iff ac_simps)
  have "map ?g [0..<length (rows @ extra)]
      = map ?g [0..<length rows] @ map (\<lambda>k. ?g (k + length rows)) [0..<length extra]"
    unfolding length_append split map_append map_map comp_def ..
  also have "\<dots> = map f rows @ map f extra"
    unfolding assms shift ..
  finally show ?thesis by simp
qed

lemma consecutive_increasing:
  fixes first :: u64
  assumes "unat first + n \<le> 2 ^ 64"
  shows "sorted_wrt (<) (map (\<lambda>k. first + of_nat k) [0..<n])"
proof -
  have u: "\<And>k. k < n \<Longrightarrow> unat (first + of_nat k) = unat first + k"
  proof -
    fix k assume k: "k < n"
    then have "k < 2 ^ 64" using assms by simp
    then have uk: "unat (of_nat k :: u64) = k" by (simp add: unat_of_nat)
    have "unat first + unat (of_nat k :: u64) < 2 ^ LENGTH(64)" using uk k assms by simp
    then have "unat (first + of_nat k) = unat first + unat (of_nat k :: u64)"
      by (simp only: unat_add_lem)
    then show "unat (first + of_nat k) = unat first + k" using uk by simp
  qed
  show ?thesis
    by (auto simp: sorted_wrt_iff_nth_less word_less_nat_alt u)
qed

text \<open>
  C5. With the epoch's stats values available and no failing \<open>Deposit\<close> insert, when
  \<open>persistEpochData\<close> returns without error: the \<open>Index\<close> values of the \<open>Deposit\<close> rows it
  has inserted, in insertion order (the canonical blocks in the order visited), are
  \<open>FirstDepositIndex, FirstDepositIndex + 1, ...\<close>, one step per row; they are strictly
  increasing as long as the count stays within \<open>uint64\<close>.
\<close>

theorem C5_deposit_indices_consecutive:
  assumes "unat (EpochStartSlot cs epoch) + unat (SlotsPerEpoch cs) < 2 ^ 64"
    and "0 < SlotsPerEpoch cs"
    and "GetValues epochStats = Some v"
    and "\<And>rows. \<not> failInsertDeposits env rows"
    and "persistEpochData env intersectSimple cs epoch blocks epochStats epochVotes db = Some (None, db')"
  shows "\<exists>rows. db_deposits db' = db_deposits db @ rows
       \<and> map Deposit_Index rows
           = map (\<lambda>k. Some (FirstDepositIndex v + of_nat k)) [0..<length rows]
       \<and> (unat (FirstDepositIndex v) + length rows \<le> 2 ^ 64
            \<longrightarrow> sorted_wrt (<) (map (\<lambda>k. FirstDepositIndex v + of_nat k) [0..<length rows]))"
proof -
  let ?first = "EpochStartSlot cs epoch"
  let ?n = "unat (SlotsPerEpoch cs)"
  let ?fn = "persistCanonicalBlock env intersectSimple epochStats"
  let ?i = "FirstDepositIndex v"
  from persistEpochData_parts [OF assms(1,2,5)] obtain b1 d1 dbEpoch db1 db2 where
    t: "aggregateTurns (Some ?fn) blocks ?n ?first 0
        (map_option FirstDepositIndex (GetValues epochStats))
        (initDbEpoch epoch epochVotes (GetValues epochStats)) db = (b1, d1, dbEpoch, db1)"
    and m: "missedTurns env (GetValues epochStats) blocks ?first ?n ?first 0 db1 = (None, db2)"
    and db': "db' = db2\<lparr>db_epochs := db_epochs db2 @ [dbEpoch]\<rparr>"
    by blast
  let ?P = "\<lambda>(b :: nat) d (e :: Epoch) s. \<exists>rows. db_deposits s = db_deposits db @ rows
       \<and> d = Some (?i + of_nat (length rows))
       \<and> map Deposit_Index rows = map (\<lambda>k. Some (?i + of_nat k)) [0..<length rows]"
  have "?P b1 d1 dbEpoch db1"
  proof (rule aggregateTurns_invariant [where P = ?P, OF _ _ t])
    show "?P 0 (map_option FirstDepositIndex (GetValues epochStats))
        (initDbEpoch epoch epochVotes (GetValues epochStats)) db"
      using assms(3) by simp
  next
    fix slot b d e s b1 d1 e1 s1
    assume inv: "?P b d e s"
      and step: "aggregateStep (Some ?fn) blocks slot b d e s = (b1, d1, e1, s1)"
    from inv obtain rows where rows: "db_deposits s = db_deposits db @ rows"
      "d = Some (?i + of_nat (length rows))"
      "map Deposit_Index rows = map (\<lambda>k. Some (?i + of_nat k)) [0..<length rows]"
      by blast
    from step have "(d1 = d \<and> s1 = s) \<or> ?fn (blocks ! b) d s = (d1, s1)"
      by (auto simp: aggregateStep_def Let_def split: if_splits option.splits prod.splits)
    then show "?P b1 d1 e1 s1"
    proof
      assume "d1 = d \<and> s1 = s"
      then show ?thesis using inv by simp
    next
      assume fn: "?fn (blocks ! b) d s = (d1, s1)"
      then have fn': "?fn (blocks ! b) (Some (?i + of_nat (length rows))) s = (d1, s1)"
        using rows(2) by simp
      from persistCanonicalBlock_index [OF fn' assms(4)] obtain extra where
        extra: "db_deposits s1 = db_deposits s @ extra"
        "d1 = Some (?i + of_nat (length rows) + of_nat (length extra))"
        "map Deposit_Index extra
           = map (\<lambda>k. Some (?i + of_nat (length rows) + of_nat k)) [0..<length extra]"
        by blast
      show ?thesis
        using rows(1) extra(1,2) consecutive_append [OF rows(3) extra(3)]
        by (intro exI [of _ "rows @ extra"]) (simp add: add.assoc)
    qed
  qed
  then obtain rows where rows: "db_deposits db1 = db_deposits db @ rows"
      "map Deposit_Index rows = map (\<lambda>k. Some (?i + of_nat k)) [0..<length rows]"
    by blast
  have "db_deposits db2 = db_deposits db1" using missedTurns_frame [OF m] by simp
  then have "db_deposits db' = db_deposits db @ rows" using db' rows(1) by simp
  then show ?thesis using rows(2) consecutive_increasing by blast
qed

section \<open>DB writer: a worked epoch\<close>

text \<open>
  A worked epoch: four slots per epoch, epoch 1 (slots 4 to 7) with canonical blocks at slots
  4, 5 and 7, carrying 1, 2 and 0 attestations and 1, 2 and 0 deposits; the proposer duties
  of the epoch are \<open>[1, 2, 3, 0]\<close> and the first deposit index is 7.
\<close>

lemmas writer_defs =
  persistCanonicalBlock_def persistBlockData_def buildDbBlock_def persistBlockChildObjects_def
  persistBlockDeposits_def buildDbDeposits_def persistBlockVoluntaryExits_def
  buildDbVoluntaryExits_def persistBlockSlashings_def buildDbSlashings_def
  InsertSlot_def InsertDeposits_def InsertMissingSlot_def InsertEpoch_def
  aggregateStep_def aggregateBody_def missedSlotStep_def missedSlotProposer_def blockAt_def
  initDbEpoch_def GetValues_def orNil_def len64_def

lemma tiny_epoch1: "unat (EpochStartSlot tiny 1) + unat (SlotsPerEpoch tiny) < 2 ^ 64"
  "0 < SlotsPerEpoch tiny" "EpochStartSlot tiny 1 = 4" "unat (SlotsPerEpoch tiny) = 4"
  by (simp_all add: tiny_def EpochStartSlot_def)

lemma epoch1_persisted:
  "persistEpochData noFaults keepCommon tiny 1 epoch1Blocks (Some (statsOf (Some stats12))) None emptyDb
     = Some (None, epoch1Db 3 (epoch1Row 4 128 128))"
  unfolding persistEpochData_def buildDbEpoch_turns [OF tiny_epoch1(1,2)]
    persistMissedSlots_turns [OF tiny_epoch1(1,2)] tiny_epoch1(3,4)
  by (simp add: eval_nat_numeral writer_defs Let_def noFaults_def emptyDb_def epoch1Blocks_def
      blockOf_def bodyWith_def statsOf_def stats12_def slotRow_def depositRow_def epoch1Row_def
      epoch1Db_def)


lemma epoch1_hyps:
  "GetValues (Some (statsOf (Some stats12))) = Some stats12"
  "sorted_wrt (\<lambda>a b. Block_Slot a < Block_Slot b) epoch1Blocks"
  "\<forall>b \<in> set epoch1Blocks. EpochOfSlot tiny (Block_Slot b) = 1"
  by (simp_all add: GetValues_def statsOf_def epoch1Blocks_def blockOf_def EpochOfSlot_def tiny_def)

lemma epoch1_slots:
  "epochSlots tiny 1 = [4, 5, 6, 7]"
  "filter (\<lambda>slot. slot \<notin> Block_Slot ` set epoch1Blocks) [4, 5, 6, 7] = [6]"
  by (simp_all add: epochSlots_def tiny_epoch1 eval_nat_numeral epoch1Blocks_def blockOf_def)

theorem C1_witness:
  "persistEpochData noFaults keepCommon tiny 1 epoch1Blocks (Some (statsOf (Some stats12))) None emptyDb
     = Some (None, epoch1Db 3 (epoch1Row 4 128 128))
   \<and> epochSlots tiny 1 = [4, 5, 6, 7]
   \<and> map Block_Slot epoch1Blocks = [4, 5, 7]
   \<and> ProposerDuties stats12 = [1, 2, 3, 0]
   \<and> db_missing_slots (epoch1Db 3 (epoch1Row 4 128 128))
       = [\<lparr>SlotHeader_Slot = 6, SlotHeader_Proposer = 3, SlotHeader_Status = Missing\<rparr>]
   \<and> db_missing_slots (epoch1Db 3 (epoch1Row 4 128 128))
       = db_missing_slots emptyDb @ map (missingRow stats12 (EpochStartSlot tiny 1)) [6]"
  using C1_missing_rows_for_slots_without_block
    [OF tiny_epoch1(1,2) epoch1_hyps epoch1_persisted] epoch1_persisted
  by (simp add: epoch1_slots epoch1Blocks_def blockOf_def stats12_def epoch1Db_def)

text \<open>
  C1 as stated fails when the epoch's stats values are not available: the same epoch is
  persisted without error, slot 6 has no block, and its \<open>Missing\<close> row carries the proposer
  \<open>math.MaxInt64\<close>, not an entry of \<open>ProposerDuties\<close>.
\<close>

theorem C1_missing_proposer_without_stats_values:
  "GetValues (Some (statsOf None)) = None
   \<and> map_option fst
        (persistEpochData noFaults keepCommon tiny 1 epoch1Blocks (Some (statsOf None)) None emptyDb)
       = Some None
   \<and> map_option (\<lambda>r. db_missing_slots (snd r))
        (persistEpochData noFaults keepCommon tiny 1 epoch1Blocks (Some (statsOf None)) None emptyDb)
       = Some [\<lparr>SlotHeader_Slot = 6, SlotHeader_Proposer = 9223372036854775807,
                SlotHeader_Status = Missing\<rparr>]
   \<and> map Block_Slot epoch1Blocks = [4, 5, 7]"
  unfolding persistEpochData_def buildDbEpoch_turns [OF tiny_epoch1(1,2)]
    persistMissedSlots_turns [OF tiny_epoch1(1,2)] tiny_epoch1(3,4)
  by (simp add: eval_nat_numeral writer_defs Let_def noFaults_def emptyDb_def epoch1Blocks_def
      blockOf_def bodyWith_def statsOf_def MaxInt64_def)

theorem C2_witness:
  "persistEpochData noFaults keepCommon tiny 1 epoch1Blocks (Some (statsOf (Some stats12))) None emptyDb
     = Some (None, epoch1Db 3 (epoch1Row 4 128 128))
   \<and> map Epoch_BlockCount (db_epochs (epoch1Db 3 (epoch1Row 4 128 128))) = [3]
   \<and> length (db_missing_slots (epoch1Db 3 (epoch1Row 4 128 128))) = 1
   \<and> unat (SlotsPerEpoch tiny) = 4
   \<and> (\<exists>dbEpoch. db_epochs (epoch1Db 3 (epoch1Row 4 128 128)) = db_epochs emptyDb @ [dbEpoch]
       \<and> Epoch_Epoch dbEpoch = 1
       \<and> Epoch_BlockCount dbEpoch = length epoch1Blocks
       \<and> Epoch_BlockCount dbEpoch
           + (length (db_missing_slots (epoch1Db 3 (epoch1Row 4 128 128)))
              - length (db_missing_slots emptyDb))
           = unat (SlotsPerEpoch tiny))"
  using C2_blocks_plus_missing_is_slots_per_epoch
    [OF tiny_epoch1(1,2) epoch1_hyps(2,3) epoch1_persisted] epoch1_persisted
  by (simp add: epoch1Db_def epoch1Row_def tiny_def)

theorem C3_witness:
  "persistEpochData noFaults keepCommon tiny 1 epoch1Blocks (Some (statsOf (Some stats12))) None emptyDb
     = Some (None, epoch1Db 3 (epoch1Row 4 128 128))
   \<and> map Epoch_AttestationCount (db_epochs (epoch1Db 3 (epoch1Row 4 128 128))) = [3]
   \<and> map Slot_AttestationCount (db_slots (epoch1Db 3 (epoch1Row 4 128 128))) = [1, 2, 0]
   \<and> (\<exists>dbEpoch rows. db_epochs (epoch1Db 3 (epoch1Row 4 128 128)) = db_epochs emptyDb @ [dbEpoch]
       \<and> db_slots (epoch1Db 3 (epoch1Row 4 128 128)) = db_slots emptyDb @ rows
       \<and> list_all (\<lambda>r. Slot_Status r = Canonical \<and> Slot_ForkId r = 0) rows
       \<and> Epoch_AttestationCount dbEpoch = sum_list (map Slot_AttestationCount rows))"
proof -
  have nf: "\<And>row. \<not> failInsertSlot noFaults row" by (simp add: noFaults_def)
  from C3_epoch_attestations_sum_canonical_rows [OF tiny_epoch1(1,2) nf epoch1_persisted]
  have "\<exists>dbEpoch rows. db_epochs (epoch1Db 3 (epoch1Row 4 128 128)) = db_epochs emptyDb @ [dbEpoch]
       \<and> db_slots (epoch1Db 3 (epoch1Row 4 128 128)) = db_slots emptyDb @ rows
       \<and> list_all (\<lambda>r. Slot_Status r = Canonical \<and> Slot_ForkId r = 0) rows
       \<and> Epoch_AttestationCount dbEpoch = sum_list (map Slot_AttestationCount rows)"
    by (simp add: list_all_iff)
  then show ?thesis
    using epoch1_persisted by (simp add: epoch1Db_def epoch1Row_def slotRow_def)
qed

text \<open>
  C3 as stated fails once an orphaned block of the epoch is persisted: after the epoch above,
  \<open>persistBlockData\<close> with \<open>orphaned = true\<close> writes the \<open>Slot\<close> row of a second block at slot
  5 with 2 attestations. The epoch's \<open>Slot\<close> rows then sum to 5 attestations, the \<open>Epoch\<close>
  row says 3.
\<close>

theorem C3_orphaned_row_not_in_epoch_aggregate:
  "persistEpochData noFaults keepCommon tiny 1 epoch1Blocks (Some (statsOf (Some stats12))) None emptyDb
     = Some (None, epoch1Db 3 (epoch1Row 4 128 128))
   \<and> persistBlockData noFaults keepCommon orphanAt5 (Some (statsOf (Some stats12))) None True None
        (epoch1Db 3 (epoch1Row 4 128 128))
       = (None, None, (epoch1Db 3 (epoch1Row 4 128 128))
            \<lparr>db_slots := db_slots (epoch1Db 3 (epoch1Row 4 128 128))
                           @ [slotRow 5 205 Orphaned 3 2 0]\<rparr>)
   \<and> map Epoch_AttestationCount (db_epochs (epoch1Db 3 (epoch1Row 4 128 128))) = [3]
   \<and> list_all (\<lambda>r. EpochOfSlot tiny (Slot_Slot r) = 1)
        (db_slots (epoch1Db 3 (epoch1Row 4 128 128)) @ [slotRow 5 205 Orphaned 3 2 0])
   \<and> sum_list (map Slot_AttestationCount
        (db_slots (epoch1Db 3 (epoch1Row 4 128 128)) @ [slotRow 5 205 Orphaned 3 2 0])) = 5"
  using epoch1_persisted
  by (simp add: writer_defs Let_def noFaults_def orphanAt5_def blockOf_def bodyWith_def
      epoch1Db_def epoch1Row_def slotRow_def EpochOfSlot_def tiny_def)

theorem C5_witness:
  "persistEpochData noFaults keepCommon tiny 1 epoch1Blocks (Some (statsOf (Some stats12))) None emptyDb
     = Some (None, epoch1Db 3 (epoch1Row 4 128 128))
   \<and> FirstDepositIndex stats12 = 7
   \<and> map Deposit_Index (db_deposits (epoch1Db 3 (epoch1Row 4 128 128))) = [Some 7, Some 8, Some 9]
   \<and> (\<exists>rows. db_deposits (epoch1Db 3 (epoch1Row 4 128 128)) = db_deposits emptyDb @ rows
       \<and> map Deposit_Index rows
           = map (\<lambda>k. Some (FirstDepositIndex stats12 + of_nat k)) [0..<length rows]
       \<and> sorted_wrt (<) (map (\<lambda>k. FirstDepositIndex stats12 + of_nat k) [0..<length rows]))"
proof -
  have nf: "\<And>rows. \<not> failInsertDeposits noFaults rows" by (simp add: noFaults_def)
  from C5_deposit_indices_consecutive [OF tiny_epoch1(1,2) epoch1_hyps(1) nf epoch1_persisted]
  obtain rows where rows: "db_deposits (epoch1Db 3 (epoch1Row 4 128 128)) = db_deposits emptyDb @ rows"
    "map Deposit_Index rows
       = map (\<lambda>k. Some (FirstDepositIndex stats12 + of_nat k)) [0..<length rows]"
    "unat (FirstDepositIndex stats12) + length rows \<le> 2 ^ 64
       \<longrightarrow> sorted_wrt (<) (map (\<lambda>k. FirstDepositIndex stats12 + of_nat k) [0..<length rows])"
    by blast
  have "length rows = 3" using rows(1) by (auto simp add: epoch1Db_def emptyDb_def)
  then have "unat (FirstDepositIndex stats12) + length rows \<le> 2 ^ 64" by (simp add: stats12_def)
  with rows(3) have "sorted_wrt (<) (map (\<lambda>k. FirstDepositIndex stats12 + of_nat k) [0..<length rows])"
    by blast
  with rows(1,2) have "\<exists>rows. db_deposits (epoch1Db 3 (epoch1Row 4 128 128)) = db_deposits emptyDb @ rows
       \<and> map Deposit_Index rows
           = map (\<lambda>k. Some (FirstDepositIndex stats12 + of_nat k)) [0..<length rows]
       \<and> sorted_wrt (<) (map (\<lambda>k. FirstDepositIndex stats12 + of_nat k) [0..<length rows])"
    by blast
  then show ?thesis
    using epoch1_persisted by (simp add: epoch1Db_def depositRow_def stats12_def)
qed

section \<open>DB writer: two blocks with slashings\<close>





end
